theory Spec2Isabelle
  imports Complex_Main "HOL-Library.Multiset" "HOL-Library.Log_Nat"
begin

section \<open>The analytical core of server.js\<close>

text \<open>
  The theory embeds the pure functions of \<^verbatim>\<open>src/server.js\<close>: \<^verbatim>\<open>loadScans\<close>,
  \<^verbatim>\<open>analyzeSentiment\<close>, \<^verbatim>\<open>getTopTickers\<close>, \<^verbatim>\<open>getCommodities\<close>, \<^verbatim>\<open>getRegimeLabel\<close>,
  \<^verbatim>\<open>getFearLevel\<close>, \<^verbatim>\<open>getMomentum\<close> and \<^verbatim>\<open>generateNarrative\<close>, together with the
  JavaScript built-ins they call.

  Conventions of the embedding.
  \<^item> A JavaScript string is the list of the bytes of its UTF-8 encoding. Every character
    the code tests or inserts (\<^verbatim>\<open>$\<close>, \<^verbatim>\<open>.json\<close>, digits, signs) is ASCII, so the byte view
    and the code-unit view agree on those operations.
  \<^item> A finite JavaScript number is the rational it denotes. In \<^verbatim>\<open>analyzeSentiment\<close>,
    in \<^verbatim>\<open>getMomentum\<close> and in the sums of the dictionaries every addition, subtraction,
    multiplication and division is followed by the rounding \<open>fl\<close> to the nearest binary64
    value. The exponent range of binary64 is not modelled; a statement that depends on
    it bounds its inputs. The cutoff of \<^verbatim>\<open>loadScans\<close> and the rate of \<^verbatim>\<open>getFearLevel\<close>
    are only compared with other numbers, and are kept exact. Mention counts are integers
    (\<^typ>\<open>int\<close>), as the data model has them.
  \<^item> \<^verbatim>\<open>new Date(x).getTime()\<close> is taken as already evaluated: a snapshot carries
    \<open>Some ms\<close> when its timestamp parses and \<open>None\<close> when the result is NaN.
  \<^item> A plain object used as a dictionary is an association list of its own properties in
    insertion order. An assignment to the key \<^verbatim>\<open>__proto__\<close> leaves it unchanged, as in
    the code. The other names that \<^verbatim>\<open>Object.prototype\<close> defines (such as
    \<^verbatim>\<open>constructor\<close>) would make the code store a string; the counts of this model are
    numbers, and a statement about the aggregations excludes these names by a hypothesis.
\<close>

subsection \<open>Strings\<close>

definition startsWith :: "string \<Rightarrow> string \<Rightarrow> bool" where
  "startsWith s p = (take (length p) s = p)"

definition endsWith :: "string \<Rightarrow> string \<Rightarrow> bool" where
  "endsWith s p = (length p \<le> length s \<and> drop (length s - length p) s = p)"

text \<open>\<^verbatim>\<open>parts.join(sep)\<close>.\<close>

fun join :: "string \<Rightarrow> string list \<Rightarrow> string" where
  "join sep [] = []"
| "join sep [p] = p"
| "join sep (p # q # ps) = p @ sep @ join sep (q # ps)"

text \<open>\<^verbatim>\<open>s.replace('$', '')\<close> with a string pattern: only the first occurrence goes.\<close>

fun replace_first :: "char \<Rightarrow> string \<Rightarrow> string" where
  "replace_first c [] = []"
| "replace_first c (x # xs) = (if x = c then xs else x # replace_first c xs)"

text \<open>\<^verbatim>\<open>s.toLowerCase()\<close> on the ASCII letters.\<close>

definition lower_char :: "char \<Rightarrow> char" where
  "lower_char c =
     (if (65::nat) \<le> of_char c \<and> of_char c \<le> (90::nat) then char_of (of_char c + (32::nat)) else c)"

definition toLowerCase :: "string \<Rightarrow> string" where
  "toLowerCase s = map lower_char s"

subsection \<open>Numbers and their text\<close>

text \<open>The result of a numeric parse: not-a-number, a finite value, or an infinity.\<close>

datatype jsnum = NaN | Fin rat | PosInf | NegInf

text \<open>\<^verbatim>\<open>r >= t\<close> and \<^verbatim>\<open>r > t\<close> against a finite \<open>t\<close>: every comparison with NaN is false.\<close>

fun num_ge :: "jsnum \<Rightarrow> rat \<Rightarrow> bool" where
  "num_ge NaN t = False"
| "num_ge (Fin x) t = (x \<ge> t)"
| "num_ge PosInf t = True"
| "num_ge NegInf t = False"

fun num_gt :: "jsnum \<Rightarrow> rat \<Rightarrow> bool" where
  "num_gt NaN t = False"
| "num_gt (Fin x) t = (x > t)"
| "num_gt PosInf t = True"
| "num_gt NegInf t = False"

text \<open>\<^verbatim>\<open>Math.abs\<close>.\<close>

fun math_abs :: "jsnum \<Rightarrow> jsnum" where
  "math_abs NaN = NaN"
| "math_abs (Fin x) = Fin \<bar>x\<bar>"
| "math_abs PosInf = PosInf"
| "math_abs NegInf = PosInf"

text \<open>
  Binary64 arithmetic. \<open>round_even\<close> is the nearest integer, the even one on a tie;
  \<open>ilog2 x\<close> is the exponent \<open>e\<close> with \<open>2^e \<le> x < 2^(e+1)\<close> of a positive \<open>x\<close>; \<open>fl\<close>
  rounds to the nearest multiple of \<open>2^(e-52)\<close>, that is to a significand of 53 bits.
\<close>

definition round_even :: "rat \<Rightarrow> int" where
  "round_even y =
     (let f = \<lfloor>y\<rfloor>; d = y - of_int f
      in if d < 1 / 2 then f else if d > 1 / 2 then f + 1 else if even f then f else f + 1)"

definition ilog2 :: "rat \<Rightarrow> int" where
  "ilog2 x =
     (let (a, b) = quotient_of x; e0 = bitlen a - bitlen b
      in if x < 2 powi e0 then e0 - 1 else e0)"

definition fl :: "rat \<Rightarrow> rat" where
  "fl x = (if x = 0 then 0
           else (let q = 2 powi (ilog2 \<bar>x\<bar> - 52) in of_int (round_even (x / q)) * q))"

text \<open>
  The four operations of JavaScript on numbers: \<^verbatim>\<open>a + b\<close>, \<^verbatim>\<open>a - b\<close>, \<^verbatim>\<open>a * b\<close>, \<^verbatim>\<open>a / b\<close>.
  Where the code divides, the divisor is not zero: a length after the guard for the
  empty case, a length \<^verbatim>\<open>|| 1\<close>, or a number tested positive.
\<close>

definition fadd :: "rat \<Rightarrow> rat \<Rightarrow> rat" where
  "fadd a b = fl (a + b)"

definition fsub :: "rat \<Rightarrow> rat \<Rightarrow> rat" where
  "fsub a b = fl (a - b)"

definition fmul :: "rat \<Rightarrow> rat \<Rightarrow> rat" where
  "fmul a b = fl (a * b)"

definition fdiv :: "rat \<Rightarrow> rat \<Rightarrow> rat" where
  "fdiv a b = fl (a / b)"

text \<open>
  The binary64 value of an integer, which is an integer again, and \<^verbatim>\<open>a + b\<close> on two
  integer-valued numbers.
\<close>

definition as_number :: "int \<Rightarrow> int" where
  "as_number c = \<lfloor>fl (of_int c)\<rfloor>"

definition int_add :: "int \<Rightarrow> int \<Rightarrow> int" where
  "int_add a b = as_number (a + b)"

definition is_digit :: "char \<Rightarrow> bool" where
  "is_digit c = (c \<in> set ''0123456789'')"

definition digit_val :: "char \<Rightarrow> nat" where
  "digit_val c = of_char c - 48"

definition digits_val :: "string \<Rightarrow> nat" where
  "digits_val ds = foldl (\<lambda>acc c. 10 * acc + digit_val c) 0 ds"

definition digit_char :: "nat \<Rightarrow> char" where
  "digit_char d = ''0123456789'' ! d"

text \<open>The decimal digits of a natural number, most significant first; \<open>0\<close> is \<open>''0''\<close>.\<close>

fun digits_of :: "nat \<Rightarrow> string" where
  "digits_of n = (if n < 10 then [digit_char n] else digits_of (n div 10) @ [digit_char (n mod 10)])"

declare digits_of.simps [simp del]

text \<open>
  \<^verbatim>\<open>x.toFixed(f)\<close> for \<open>\<bar>x\<bar> < 10^21\<close>, on the exact value of the number \<open>x\<close>: the sign
  is taken off first, the magnitude is
  rounded to the nearest multiple of \<open>10^-f\<close> (the larger one on a tie), its digits are
  padded with zeros to at least \<open>f + 1\<close> places and the point goes before the last \<open>f\<close>.
  A negative \<open>x\<close> keeps its sign even when it rounds to zero. Above \<open>10^21\<close> JavaScript
  switches to exponent notation, which this model leaves out.
\<close>

definition toFixed_scaled :: "nat \<Rightarrow> rat \<Rightarrow> nat" where
  "toFixed_scaled f x = nat \<lfloor>\<bar>x\<bar> * 10 ^ f + 1 / 2\<rfloor>"

definition toFixed :: "nat \<Rightarrow> rat \<Rightarrow> string" where
  "toFixed f x =
     (let m = digits_of (toFixed_scaled f x);
          m' = (if f \<noteq> 0
                then (let p = replicate (f + 1 - length m) CHR ''0'' @ m;
                          k = length p
                      in take (k - f) p @ ''.'' @ drop (k - f) p)
                else m)
      in (if x < 0 then ''-'' else '''') @ m')"

text \<open>
  White space as \<^verbatim>\<open>parseFloat\<close>, \<^verbatim>\<open>parseInt\<close> and \<^verbatim>\<open>Number\<close> skip it: the ASCII
  controls and blank, and the UTF-8 forms of U+00A0, U+1680, U+2000..U+200A, U+2028,
  U+2029, U+202F, U+205F, U+3000 and U+FEFF.
\<close>

definition ascii_ws :: "char list" where
  "ascii_ws = [CHR 0x09, CHR 0x0A, CHR 0x0B, CHR 0x0C, CHR 0x0D, CHR 0x20]"

definition wide_ws :: "string list" where
  "wide_ws =
     [[CHR 0xE1, CHR 0x9A, CHR 0x80],
      [CHR 0xE2, CHR 0x80, CHR 0x80], [CHR 0xE2, CHR 0x80, CHR 0x81],
      [CHR 0xE2, CHR 0x80, CHR 0x82], [CHR 0xE2, CHR 0x80, CHR 0x83],
      [CHR 0xE2, CHR 0x80, CHR 0x84], [CHR 0xE2, CHR 0x80, CHR 0x85],
      [CHR 0xE2, CHR 0x80, CHR 0x86], [CHR 0xE2, CHR 0x80, CHR 0x87],
      [CHR 0xE2, CHR 0x80, CHR 0x88], [CHR 0xE2, CHR 0x80, CHR 0x89],
      [CHR 0xE2, CHR 0x80, CHR 0x8A],
      [CHR 0xE2, CHR 0x80, CHR 0xA8], [CHR 0xE2, CHR 0x80, CHR 0xA9],
      [CHR 0xE2, CHR 0x80, CHR 0xAF], [CHR 0xE2, CHR 0x81, CHR 0x9F],
      [CHR 0xE3, CHR 0x80, CHR 0x80], [CHR 0xEF, CHR 0xBB, CHR 0xBF]]"

definition ws_len :: "string \<Rightarrow> nat" where
  "ws_len s =
     (case s of
        [] \<Rightarrow> 0
      | c # r \<Rightarrow>
          if c \<in> set ascii_ws then 1
          else if take 2 s = [CHR 0xC2, CHR 0xA0] then 2
          else if length s \<ge> 3 \<and> take 3 s \<in> set wide_ws then 3
          else 0)"

function skip_ws :: "string \<Rightarrow> string" where
  "skip_ws s = (if ws_len s = 0 then s else skip_ws (drop (ws_len s) s))"
  by pat_completeness auto
termination
proof (relation "measure length")
  fix s :: string
  assume pos: "ws_len s \<noteq> 0"
  then have "s \<noteq> []"
    by (auto simp: ws_len_def)
  with pos show "(drop (ws_len s) s, s) \<in> measure length"
    by simp
qed simp

declare skip_ws.simps [simp del]

text \<open>
  The longest prefix that is a decimal literal, after an optional sign:
  \<^verbatim>\<open>Infinity\<close>, or digits with an optional fraction and an optional exponent, of which
  at least one digit stands before the exponent. Each parser returns what it read
  and the text after it; the result is nothing when no such prefix exists.
\<close>

definition parse_sign :: "string \<Rightarrow> bool \<times> string" where
  "parse_sign s =
     (case s of
        [] \<Rightarrow> (False, s)
      | c # r \<Rightarrow> if c = CHR ''+'' then (False, r)
                  else if c = CHR ''-'' then (True, r)
                  else (False, s))"

definition parse_exponent :: "string \<Rightarrow> int \<times> string" where
  "parse_exponent r =
     (case r of
        [] \<Rightarrow> (0, r)
      | c # r1 \<Rightarrow>
          if c = CHR ''e'' \<or> c = CHR ''E'' then
            (let (neg, r2) = parse_sign r1;
                 es = takeWhile is_digit r2
             in if es = [] then (0, r)
                else ((if neg then - int (digits_val es) else int (digits_val es)),
                      dropWhile is_digit r2))
          else (0, r))"

definition parse_unsigned :: "string \<Rightarrow> (rat \<times> string) option" where
  "parse_unsigned s =
     (let ip = takeWhile is_digit s;
          r0 = dropWhile is_digit s;
          dot = (case r0 of [] \<Rightarrow> False | c # r \<Rightarrow> c = CHR ''.'');
          fp = (if dot then takeWhile is_digit (tl r0) else []);
          r1 = (if dot then dropWhile is_digit (tl r0) else r0)
      in if ip = [] \<and> fp = [] then None
         else (let (e, r2) = parse_exponent r1
               in Some ((of_nat (digits_val ip) + of_nat (digits_val fp) / 10 ^ length fp)
                          * 10 powi e, r2)))"

definition parse_decimal :: "string \<Rightarrow> (jsnum \<times> string) option" where
  "parse_decimal s =
     (let (neg, u) = parse_sign s
      in if startsWith u ''Infinity'' then Some (if neg then NegInf else PosInf, drop 8 u)
         else (case parse_unsigned u of
                 None \<Rightarrow> None
               | Some (v, r) \<Rightarrow> Some (Fin (if neg then - v else v), r)))"

text \<open>\<^verbatim>\<open>parseFloat(s)\<close>: leading white space is skipped, trailing text is ignored.\<close>

definition parseFloat :: "string \<Rightarrow> jsnum" where
  "parseFloat s = (case parse_decimal (skip_ws s) of None \<Rightarrow> NaN | Some (v, r) \<Rightarrow> v)"

text \<open>
  The value of a character as a digit of a radix up to 36; 36 for a character that is
  no digit at all.
\<close>

definition radix_digit :: "char \<Rightarrow> nat" where
  "radix_digit c =
     (let n = (of_char c :: nat)
      in if 48 \<le> n \<and> n \<le> 57 then n - 48
         else if 97 \<le> n \<and> n \<le> 122 then n - 87
         else if 65 \<le> n \<and> n \<le> 90 then n - 55
         else 36)"

definition radix_val :: "nat \<Rightarrow> string \<Rightarrow> nat" where
  "radix_val b ds = foldl (\<lambda>acc c. b * acc + radix_digit c) 0 ds"

text \<open>
  \<^verbatim>\<open>parseInt(s)\<close> with no radix argument: white space, a sign, the prefix \<^verbatim>\<open>0x\<close> for
  radix 16, then the longest run of digits of the radix; NaN when that run is empty.
\<close>

definition parseInt :: "string \<Rightarrow> jsnum" where
  "parseInt s =
     (let (neg, u) = parse_sign (skip_ws s);
          hex = (startsWith u ''0x'' \<or> startsWith u ''0X'');
          b = (if hex then 16 else 10);
          v = (if hex then drop 2 u else u);
          ds = takeWhile (\<lambda>c. radix_digit c < b) v
      in if ds = [] then NaN
         else Fin (if neg then - of_nat (radix_val b ds) else of_nat (radix_val b ds)))"

text \<open>White space at the end of a string, for the conversion of a whole string.\<close>

definition ws_len_end :: "string \<Rightarrow> nat" where
  "ws_len_end s =
     (let n = length s
      in if n = 0 then 0
         else if last s \<in> set ascii_ws then 1
         else if 2 \<le> n \<and> drop (n - 2) s = [CHR 0xC2, CHR 0xA0] then 2
         else if 3 \<le> n \<and> drop (n - 3) s \<in> set wide_ws then 3
         else 0)"

function trim_end :: "string \<Rightarrow> string" where
  "trim_end s = (if ws_len_end s = 0 then s else trim_end (take (length s - ws_len_end s) s))"
  by pat_completeness auto
termination
proof (relation "measure length")
  fix s :: string
  assume pos: "ws_len_end s \<noteq> 0"
  then have "s \<noteq> []"
    by (auto simp: ws_len_end_def)
  with pos show "(take (length s - ws_len_end s) s, s) \<in> measure length"
    by simp
qed simp

declare trim_end.simps [simp del]

text \<open>
  The conversion of a string to a number, as \<^verbatim>\<open>Math.abs(s)\<close> and \<^verbatim>\<open>s > 0\<close> apply
  it: the string is trimmed at both ends; the empty string is 0; otherwise the whole
  of it must be a decimal literal, or \<^verbatim>\<open>0x\<close>, \<^verbatim>\<open>0o\<close>, \<^verbatim>\<open>0b\<close> and digits of that radix.
\<close>

definition prefixed_literal :: "string \<Rightarrow> nat \<Rightarrow> string \<Rightarrow> string \<Rightarrow> jsnum option" where
  "prefixed_literal t b lo up =
     (if startsWith t lo \<or> startsWith t up then
        (let ds = drop 2 t
         in if ds \<noteq> [] \<and> list_all (\<lambda>c. radix_digit c < b) ds
            then Some (Fin (of_nat (radix_val b ds))) else Some NaN)
      else None)"

definition toNumber :: "string \<Rightarrow> jsnum" where
  "toNumber s =
     (let t = trim_end (skip_ws s)
      in if t = [] then Fin 0
         else (case prefixed_literal t 16 ''0x'' ''0X'' of Some v \<Rightarrow> v | None \<Rightarrow>
              (case prefixed_literal t 8 ''0o'' ''0O'' of Some v \<Rightarrow> v | None \<Rightarrow>
              (case prefixed_literal t 2 ''0b'' ''0B'' of Some v \<Rightarrow> v | None \<Rightarrow>
              (case parse_decimal t of
                 None \<Rightarrow> NaN
               | Some (v, r) \<Rightarrow> if r = [] then v else NaN)))))"

text \<open>The decimal text of an integer, \<^verbatim>\<open>String(n)\<close> for an integral \<open>n\<close> below \<open>10^21\<close>.\<close>

definition int_toString :: "int \<Rightarrow> string" where
  "int_toString i = (if i < 0 then ''-'' @ digits_of (nat (- i)) else digits_of (nat i))"

text \<open>
  A field that holds either a number or a string. The only numbers the code stores in
  such fields are integer literals, so the numeric case carries an \<^typ>\<open>int\<close>.
\<close>

datatype jsval = JNum int | JStr string

fun toString :: "jsval \<Rightarrow> string" where
  "toString (JNum i) = int_toString i"
| "toString (JStr s) = s"

subsection \<open>Snapshots\<close>

record sentiment_obj =
  bullish :: "rat option"
  bearish :: "rat option"

record category_obj =
  commodities :: "(string \<times> int) list option"
  metals :: "(string \<times> int) list option"

text \<open>
  One parsed scan file. An absent field is \<open>None\<close>; \<open>macroKeywords\<close> and
  \<open>commodityKeywords\<close> are given by their \<^verbatim>\<open>Object.entries\<close>.
\<close>

record snapshot =
  timestamp :: "int option"
  sentiment :: "sentiment_obj option"
  topTickers :: "(string \<times> int) list option"
  byCategory :: "category_obj option"
  macroKeywords :: "(string \<times> int) list option"
  commodityKeywords :: "(string \<times> int) list option"

subsection \<open>analyzeSentiment\<close>

text \<open>
  \<^verbatim>\<open>d.sentiment?.bullish || 0\<close> and \<^verbatim>\<open>d.sentiment?.bearish || 0\<close>. The number read
  is the binary64 value of the field.
\<close>

definition bullish_of :: "snapshot \<Rightarrow> rat" where
  "bullish_of d =
     (case sentiment d of None \<Rightarrow> 0 | Some s \<Rightarrow> (case bullish s of None \<Rightarrow> 0 | Some v \<Rightarrow> fl v))"

definition bearish_of :: "snapshot \<Rightarrow> rat" where
  "bearish_of d =
     (case sentiment d of None \<Rightarrow> 0 | Some s \<Rightarrow> (case bearish s of None \<Rightarrow> 0 | Some v \<Rightarrow> fl v))"

text \<open>\<^verbatim>\<open>scans.reduce((s, d) => s + f(d), 0)\<close>.\<close>

definition reduce_sum :: "(snapshot \<Rightarrow> rat) \<Rightarrow> snapshot list \<Rightarrow> rat" where
  "reduce_sum f scans = foldl (\<lambda>s d. fadd s (f d)) 0 scans"

text \<open>
  The literal of line 59 that stands for an unbounded ratio, byte for byte as the file
  under \<^verbatim>\<open>src/\<close> holds it: the UTF-8 form of the infinity sign U+221E
  (\<open>E2 88 9E\<close>) after a pass through Mac Roman, which leaves the three characters
  U+201A, U+00E0, U+00FB.
\<close>

definition infinity_symbol :: string where
  "infinity_symbol = [CHR 0xE2, CHR 0x80, CHR 0x9A, CHR 0xC3, CHR 0xA0, CHR 0xC3, CHR 0xBB]"

record sentiment_summary =
  bull :: jsval
  bear :: jsval
  ratio :: jsval
  trend :: string

text \<open>
  Lines 54 to 70. The literals \<^verbatim>\<open>1.1\<close> and \<^verbatim>\<open>0.9\<close> are the numbers \<open>fl (11 / 10)\<close> and
  \<open>fl (9 / 10)\<close>.
\<close>

definition analyzeSentiment :: "snapshot list \<Rightarrow> sentiment_summary" where
  "analyzeSentiment scans =
     (if length scans = 0
      then \<lparr>bull = JNum 0, bear = JNum 0, ratio = JNum 0, trend = ''UNKNOWN''\<rparr>
      else
       (let bullv = fdiv (reduce_sum bullish_of scans) (of_nat (length scans));
            bearv = fdiv (reduce_sum bearish_of scans) (of_nat (length scans));
            ratiov = (if bearv > 0 then toFixed 2 (fdiv bullv bearv)
                      else if bullv > 0 then infinity_symbol else ''0'');
            mid = length scans div 2;
            firstHalf = take mid scans;
            secondHalf = drop mid scans;
            firstBull = fdiv (reduce_sum bullish_of firstHalf)
                          (of_nat (if length firstHalf = 0 then 1 else length firstHalf));
            secondBull = fdiv (reduce_sum bullish_of secondHalf)
                           (of_nat (if length secondHalf = 0 then 1 else length secondHalf));
            trendv = (if secondBull > fmul firstBull (fl (11 / 10)) then ''RISING''
                      else if secondBull < fmul firstBull (fl (9 / 10)) then ''DECLINING''
                      else ''STABLE'')
        in \<lparr>bull = JStr (toFixed 1 bullv), bear = JStr (toFixed 1 bearv),
            ratio = JStr ratiov, trend = trendv\<rparr>))"

subsection \<open>getRegimeLabel\<close>

record badge =
  emoji :: string
  color :: string

record regime = badge +
  label :: string

text \<open>
  \<^verbatim>\<open>parseFloat(ratio)\<close> converts its argument to a string first. The emoji are the
  bytes of the file.
\<close>

definition getRegimeLabel :: "jsval \<Rightarrow> regime" where
  "getRegimeLabel rv =
     (let r = parseFloat (toString rv)
      in if num_ge r 5 then
           \<lparr>emoji = [CHR 0xEF, CHR 0xA3, CHR 0xBF, CHR 0xC3, CHR 0xBC, CHR 0xC3, CHR 0xB6, CHR 0xC3, CHR 0x84],
            color = ''#00ff88'', label = ''EUPHORIA''\<rparr>
         else if num_ge r 3 then
           \<lparr>emoji = [CHR 0xEF, CHR 0xA3, CHR 0xBF, CHR 0xC3, CHR 0xBC, CHR 0xC3, CHR 0xBC, CHR 0xC2, CHR 0xA2],
            color = ''#4ade80'', label = ''BULLISH''\<rparr>
         else if num_ge r (3 / 2) then
           \<lparr>emoji = [CHR 0xEF, CHR 0xA3, CHR 0xBF, CHR 0xC3, CHR 0xBC, CHR 0xC3, CHR 0xBC, CHR 0xC2, CHR 0xB0],
            color = ''#facc15'', label = ''LEANING BULL''\<rparr>
         else if num_ge r (67 / 100) then
           \<lparr>emoji = [CHR 0xE2, CHR 0x80, CHR 0x9A, CHR 0xC3, CHR 0xB6, CHR 0xE2, CHR 0x84, CHR 0xA2],
            color = ''#94a3b8'', label = ''NEUTRAL''\<rparr>
         else if num_ge r (33 / 100) then
           \<lparr>emoji = [CHR 0xEF, CHR 0xA3, CHR 0xBF, CHR 0xC3, CHR 0xBC, CHR 0xC3, CHR 0xBC, CHR 0xE2, CHR 0x80, CHR 0xA0],
            color = ''#fb923c'', label = ''LEANING BEAR''\<rparr>
         else
           \<lparr>emoji = [CHR 0xEF, CHR 0xA3, CHR 0xBF, CHR 0xC3, CHR 0xBC, CHR 0xC3, CHR 0xAE, CHR 0xC2, CHR 0xA5],
            color = ''#ef4444'', label = ''BEARISH''\<rparr>)"

subsection \<open>Objects used as dictionaries\<close>

text \<open>
  The own properties of a plain object, in the order of their creation.
  \<^verbatim>\<open>o[k] || 0\<close> reads a count; \<^verbatim>\<open>o[k] = (o[k] || 0) + c\<close> adds the number \<open>c\<close> to
  it, creating the property at the end when it is new.

  For the key \<^verbatim>\<open>__proto__\<close> the read gives the prototype object, the sum is a string,
  and the assignment of a string to \<^verbatim>\<open>__proto__\<close> is ignored: the object stays as it
  is. For the other names of \<open>object_prototype_names\<close> the read gives an inherited
  function and the code stores a string; this model has numbers only and treats such a
  key like any other, so the statements below that speak of sums exclude these names.
\<close>

type_synonym counts = "(string \<times> int) list"

definition object_prototype_names :: "string list" where
  "object_prototype_names =
     [''constructor'', ''__defineGetter__'', ''__defineSetter__'', ''hasOwnProperty'',
      ''__lookupGetter__'', ''__lookupSetter__'', ''isPrototypeOf'', ''propertyIsEnumerable'',
      ''toString'', ''valueOf'', ''__proto__'', ''toLocaleString'']"

definition obj_get :: "counts \<Rightarrow> string \<Rightarrow> int" where
  "obj_get m k = (case map_of m k of None \<Rightarrow> 0 | Some v \<Rightarrow> v)"

definition obj_add :: "counts \<Rightarrow> string \<Rightarrow> int \<Rightarrow> counts" where
  "obj_add m k c =
     (if k = ''__proto__'' then m
      else if k \<in> set (map fst m)
      then map (\<lambda>(k', v). if k' = k then (k', int_add v (as_number c)) else (k', v)) m
      else m @ [(k, int_add 0 (as_number c))])"

text \<open>
  \<^verbatim>\<open>Object.entries\<close> and \<^verbatim>\<open>Object.keys\<close> list the array-index keys first, in
  ascending numeric order, then every other key in creation order. An array index is
  the canonical decimal text of an integer from 0 to \<open>2^32 - 2\<close>.
\<close>

definition is_array_index :: "string \<Rightarrow> bool" where
  "is_array_index k =
     (k \<noteq> [] \<and> list_all is_digit k \<and> (k = ''0'' \<or> hd k \<noteq> CHR ''0'')
      \<and> int (digits_val k) < 4294967295)"

definition object_entries :: "counts \<Rightarrow> (string \<times> int) list" where
  "object_entries m =
     sort_key (\<lambda>(k, v). digits_val k) (filter (\<lambda>(k, v). is_array_index k) m)
     @ filter (\<lambda>(k, v). \<not> is_array_index k) m"

definition object_keys :: "counts \<Rightarrow> string list" where
  "object_keys m = map fst (object_entries m)"

text \<open>\<^verbatim>\<open>.sort((a, b) => b[1] - a[1])\<close>: descending by count, stable.\<close>

definition sort_desc :: "(string \<times> int) list \<Rightarrow> (string \<times> int) list" where
  "sort_desc es = sort_key (\<lambda>(k, v). - v) es"

record mention_entry =
  name :: string
  mentions :: int

definition to_entry :: "string \<times> int \<Rightarrow> mention_entry" where
  "to_entry = (\<lambda>(n, c). \<lparr>name = n, mentions = c\<rparr>)"

subsection \<open>getTopTickers\<close>

definition clean_ticker :: "string \<Rightarrow> string" where
  "clean_ticker t = replace_first CHR ''$'' t"

text \<open>\<^verbatim>\<open>scan.topTickers || []\<close>.\<close>

definition tickers_of :: "snapshot \<Rightarrow> (string \<times> int) list" where
  "tickers_of scan = (case topTickers scan of None \<Rightarrow> [] | Some ts \<Rightarrow> ts)"

text \<open>The inner loop of lines 76 to 79 (and 164 to 167) over one snapshot's pairs.\<close>

definition count_tickers :: "counts \<Rightarrow> (string \<times> int) list \<Rightarrow> counts" where
  "count_tickers m ts = foldl (\<lambda>acc (t, c). obj_add acc (clean_ticker t) c) m ts"

definition getTopTickers :: "snapshot list \<Rightarrow> nat \<Rightarrow> mention_entry list" where
  "getTopTickers scans limit =
     (let counts = foldl (\<lambda>acc scan. count_tickers acc (tickers_of scan)) [] scans
      in map to_entry (take limit (sort_desc (object_entries counts))))"

text \<open>
  The default of the parameter \<^verbatim>\<open>limit\<close>. The limit is a natural number, as
  every caller passes one (15 by default, 5 and 30).
\<close>

definition getTopTickers_default :: "snapshot list \<Rightarrow> mention_entry list" where
  "getTopTickers_default scans = getTopTickers scans 15"

subsection \<open>getCommodities\<close>

definition macro_allowed :: "string list" where
  "macro_allowed = [''gold'', ''silver'', ''copper'', ''oil'', ''corn'', ''coffee'']"

text \<open>
  One pass of the loop body of lines 90 to 102. The binding \<open>keywords\<close> is read from
  \<^verbatim>\<open>byCategory\<close> as in the source and, as in the source, not used afterwards.
\<close>

definition commodities_step :: "counts \<Rightarrow> snapshot \<Rightarrow> counts" where
  "commodities_step acc scan =
     (let keywords = (case byCategory scan of
                        None \<Rightarrow> []
                      | Some bc \<Rightarrow> (case commodities bc of
                                     Some c \<Rightarrow> c
                                   | None \<Rightarrow> (case metals bc of Some m \<Rightarrow> m | None \<Rightarrow> [])));
          macro = (case macroKeywords scan of None \<Rightarrow> [] | Some m \<Rightarrow> m);
          acc1 = foldl (\<lambda>a (kw, c). if kw \<in> set macro_allowed then obj_add a kw c else a)
                   acc macro;
          ck = (case commodityKeywords scan of None \<Rightarrow> [] | Some m \<Rightarrow> m)
      in foldl (\<lambda>a (kw, c). obj_add a kw c) acc1 ck)"

definition getCommodities :: "snapshot list \<Rightarrow> mention_entry list" where
  "getCommodities scans =
     map to_entry (sort_desc (object_entries (foldl commodities_step [] scans)))"

subsection \<open>getFearLevel\<close>

record fear = badge +
  level :: string

text \<open>
  \<^verbatim>\<open>commodities.find(c => c.name === 'gold')?.mentions || 0\<close>, and the rate per scan.
  The rate is only compared with 5, 3 and 1.5, which are binary64 values. A quotient of
  an integer by an array length that lies below one of them lies below it by more than
  a rounding can cover, so the exact quotient decides these comparisons as the rounded
  one does.
\<close>

definition goldMentions :: "mention_entry list \<Rightarrow> int" where
  "goldMentions cs =
     (case find (\<lambda>c. name c = ''gold'') cs of None \<Rightarrow> 0 | Some c \<Rightarrow> mentions c)"

definition perScan :: "mention_entry list \<Rightarrow> int \<Rightarrow> rat" where
  "perScan cs scanCount =
     (if scanCount > 0 then of_int (goldMentions cs) / of_int scanCount else 0)"

definition getFearLevel :: "mention_entry list \<Rightarrow> int \<Rightarrow> fear" where
  "getFearLevel cs scanCount =
     (let p = perScan cs scanCount
      in if p \<ge> 5 then
           \<lparr>emoji = [CHR 0xEF, CHR 0xA3, CHR 0xBF, CHR 0xC3, CHR 0xBC, CHR 0xC3, CHR 0xAE, CHR 0xC2, CHR 0xA5],
            color = ''#ef4444'', level = ''EXTREME''\<rparr>
         else if p \<ge> 3 then
           \<lparr>emoji = [CHR 0xEF, CHR 0xA3, CHR 0xBF, CHR 0xC3, CHR 0xBC, CHR 0xC3, CHR 0xBC, CHR 0xE2, CHR 0x80, CHR 0xA0],
            color = ''#f97316'', level = ''HIGH''\<rparr>
         else if p \<ge> 3 / 2 then
           \<lparr>emoji = [CHR 0xEF, CHR 0xA3, CHR 0xBF, CHR 0xC3, CHR 0xBC, CHR 0xC3, CHR 0xBC, CHR 0xC2, CHR 0xB0],
            color = ''#eab308'', level = ''ELEVATED''\<rparr>
         else
           \<lparr>emoji = [CHR 0xEF, CHR 0xA3, CHR 0xBF, CHR 0xC3, CHR 0xBC, CHR 0xC3, CHR 0xBC, CHR 0xC2, CHR 0xA2],
            color = ''#22c55e'', level = ''NORMAL''\<rparr>)"

subsection \<open>getMomentum\<close>

record momentum_entry =
  ticker :: string
  recentRate :: string
  priorRate :: string
  change :: jsnum
  direction :: string

text \<open>\<^verbatim>\<open>ts >= recentStart\<close> on two \<^verbatim>\<open>getTime()\<close> results: false when either is NaN.\<close>

definition ts_ge :: "int option \<Rightarrow> int option \<Rightarrow> bool" where
  "ts_ge a b = (case a of None \<Rightarrow> False | Some x \<Rightarrow> (case b of None \<Rightarrow> False | Some y \<Rightarrow> x \<ge> y))"

text \<open>
  The loop of lines 161 to 168: each snapshot of the history adds its ticker counts to
  the recent bucket or to the prior one. The state is the pair of the two objects.
\<close>

definition bucket_step :: "int option \<Rightarrow> counts \<times> counts \<Rightarrow> snapshot \<Rightarrow> counts \<times> counts" where
  "bucket_step recentStart st scan =
     (if ts_ge (timestamp scan) recentStart
      then (count_tickers (fst st) (tickers_of scan), snd st)
      else (fst st, count_tickers (snd st) (tickers_of scan)))"

definition buckets :: "int option \<Rightarrow> snapshot list \<Rightarrow> counts \<times> counts" where
  "buckets recentStart allScans = foldl (bucket_step recentStart) ([], []) allScans"

text \<open>\<^verbatim>\<open>new Set(xs)\<close> iterates in the order of first insertion.\<close>

definition set_order :: "string list \<Rightarrow> string list" where
  "set_order xs = foldl (\<lambda>acc x. if x \<in> set acc then acc else acc @ [x]) [] xs"

text \<open>\<^verbatim>\<open>allScans.length - recentScans.length || 1\<close>: the difference, or 1 when it is 0.\<close>

definition prior_denominator :: "nat \<Rightarrow> nat \<Rightarrow> int" where
  "prior_denominator n m = (if int n - int m = 0 then 1 else int n - int m)"

text \<open>The number of line 182 before it is printed: \<^verbatim>\<open>(r - p) / p * 100\<close>.\<close>

definition pct_double :: "rat \<Rightarrow> rat \<Rightarrow> rat" where
  "pct_double r p = fmul (fdiv (fsub r p) p) 100"

text \<open>
  The body of the loop of lines 173 to 189 for one ticker: the entry it pushes, if any.
  \<open>n\<close> and \<open>m\<close> are the lengths of the history and of the recent window (at least
  40 and at least 10 where the loop runs). The percent
  change is the string \<^verbatim>\<open>toFixed(0)\<close> returns; \<^verbatim>\<open>Math.abs\<close> and \<^verbatim>\<open>> 0\<close> convert it
  back to a number and \<^verbatim>\<open>parseInt\<close> reads it for the entry.
\<close>

definition momentum_row :: "counts \<Rightarrow> counts \<Rightarrow> nat \<Rightarrow> nat \<Rightarrow> string \<Rightarrow> momentum_entry option" where
  "momentum_row recentTickers priorTickers n m t =
     (let recent = obj_get recentTickers t;
          prior = obj_get priorTickers t
      in if int_add recent prior < 5 then None
         else
          (let rRate = fdiv (of_int recent) (of_nat m);
               pRate = fdiv (of_int prior) (of_int (prior_denominator n m))
           in if pRate > 0 then
                (let chg = toFixed 0 (pct_double rRate pRate)
                 in if num_gt (math_abs (toNumber chg)) 30
                    then Some \<lparr>ticker = t, recentRate = toFixed 2 rRate,
                               priorRate = toFixed 2 pRate, change = parseInt chg,
                               direction = (if num_gt (toNumber chg) 0 then ''up'' else ''down'')\<rparr>
                    else None)
              else if recent \<ge> 3 then
                Some \<lparr>ticker = t, recentRate = toFixed 2 rRate, priorRate = ''0.00'',
                      change = Fin 999, direction = ''new''\<rparr>
              else None))"

text \<open>
  The list \<open>results\<close> before it is sorted and cut: one pass over the set of all tickers,
  recent keys first. \<^verbatim>\<open>recentScans[0]\<close> exists where this runs, after the guard of
  line 154; the case of an empty window is there for totality only.
\<close>

definition momentum_results :: "snapshot list \<Rightarrow> snapshot list \<Rightarrow> momentum_entry list" where
  "momentum_results allScans recentScans =
     (case recentScans of
        [] \<Rightarrow> []
      | r0 # rest \<Rightarrow>
         (let (recentTickers, priorTickers) = buckets (timestamp r0) allScans;
              allTickers = set_order (object_keys recentTickers @ object_keys priorTickers)
          in List.map_filter
               (momentum_row recentTickers priorTickers (length allScans) (length recentScans))
               allTickers))"

text \<open>
  The key of the final sort, \<^verbatim>\<open>Math.abs(e.change)\<close>. Every entry carries a finite
  integer (see \<open>momentum_row_change_finite\<close> below), so the other cases do not arise.
\<close>

definition abs_change :: "momentum_entry \<Rightarrow> rat" where
  "abs_change e = (case math_abs (change e) of Fin x \<Rightarrow> x | _ \<Rightarrow> 0)"

definition getMomentum :: "snapshot list \<Rightarrow> snapshot list \<Rightarrow> momentum_entry list" where
  "getMomentum allScans recentScans =
     (if length allScans < 40 \<or> length recentScans < 10 then []
      else take 12 (sort_key (\<lambda>e. - abs_change e) (momentum_results allScans recentScans)))"

subsection \<open>generateNarrative\<close>

definition opening_euphoria :: string where
  "opening_euphoria = ''CT is running hot. Multiple signals pointing toward risk-on euphoria.''"

definition opening_bullish :: "sentiment_summary \<Rightarrow> string" where
  "opening_bullish s =
     ''Structural optimism holds with a '' @ toString (ratio s)
     @ '':1 bull/bear ratio, though the mood is '' @ toLowerCase (trend s) @ ''.''"

definition opening_neutral :: string where
  "opening_neutral = ''Markets are in wait-and-see mode. Neither conviction nor fear dominating.''"

definition opening_caution :: string where
  "opening_caution = ''Caution dominates. Bears have the floor.''"

definition fear_extreme_sentence :: string where
  "fear_extreme_sentence =
     ''Gold mentions are at extreme levels ''
     @ [CHR 0xE2, CHR 0x80, CHR 0x9A, CHR 0xC3, CHR 0x84, CHR 0xC3, CHR 0xAE]
     @ '' historically this precedes volatility, not necessarily direction.''"

definition fear_high_sentence :: string where
  "fear_high_sentence =
     ''The fear gauge is elevated. Commodity mentions suggest macro uncertainty is on traders''
     @ [CHR 0x27] @ '' minds.''"

text \<open>\<^verbatim>\<open>ms.map(m => '$' + m.ticker).join(', ')\<close>.\<close>

definition ticker_list :: "momentum_entry list \<Rightarrow> string" where
  "ticker_list ms = join '', '' (map (\<lambda>m. ''$'' @ ticker m) ms)"

definition rising_sentence :: "momentum_entry list \<Rightarrow> string" where
  "rising_sentence ms = ''Attention building on '' @ ticker_list ms @ ''.''"

definition falling_sentence :: "momentum_entry list \<Rightarrow> string" where
  "falling_sentence ms = ''Narrative fading for '' @ ticker_list ms @ ''.''"

definition rising_of :: "momentum_entry list \<Rightarrow> momentum_entry list" where
  "rising_of momentum =
     take 3 (filter (\<lambda>m. direction m = ''up'' \<or> direction m = ''new'') momentum)"

definition falling_of :: "momentum_entry list \<Rightarrow> momentum_entry list" where
  "falling_of momentum = take 3 (filter (\<lambda>m. direction m = ''down'') momentum)"

text \<open>
  The array \<open>parts\<close> when line 226 joins it: each \<^verbatim>\<open>push\<close> appends one sentence. The
  parameter \<open>tickers\<close> is not read by the function.
\<close>

definition narrative_parts ::
  "sentiment_summary \<Rightarrow> regime \<Rightarrow> fear \<Rightarrow> mention_entry list \<Rightarrow> momentum_entry list \<Rightarrow> string list" where
  "narrative_parts s rg fr tickers momentum =
     (let parts0 = [];
          parts1 = (if label rg = ''EUPHORIA'' then parts0 @ [opening_euphoria]
                    else if label rg = ''BULLISH'' then parts0 @ [opening_bullish s]
                    else if label rg = ''NEUTRAL'' then parts0 @ [opening_neutral]
                    else parts0 @ [opening_caution]);
          parts2 = (if level fr = ''EXTREME'' then parts1 @ [fear_extreme_sentence]
                    else if level fr = ''HIGH'' then parts1 @ [fear_high_sentence]
                    else parts1);
          rising = rising_of momentum;
          falling = falling_of momentum;
          parts3 = (if length rising \<noteq> 0 then parts2 @ [rising_sentence rising] else parts2);
          parts4 = (if length falling \<noteq> 0 then parts3 @ [falling_sentence falling] else parts3)
      in parts4)"

definition generateNarrative ::
  "sentiment_summary \<Rightarrow> regime \<Rightarrow> fear \<Rightarrow> mention_entry list \<Rightarrow> momentum_entry list \<Rightarrow> string" where
  "generateNarrative s rg fr tickers momentum = join '' '' (narrative_parts s rg fr tickers momentum)"

subsection \<open>loadScans\<close>

text \<open>
  The data directory as \<^verbatim>\<open>loadScans\<close> sees it: \<open>None\<close> when it does not exist,
  otherwise the listing of \<^verbatim>\<open>readdirSync\<close>, each name with what the \<^verbatim>\<open>try\<close> block
  gets from the file: \<open>None\<close> when reading or parsing it throws, the parsed snapshot
  otherwise. \<open>now\<close> is \<^verbatim>\<open>Date.now()\<close> in milliseconds.
\<close>

type_synonym data_dir = "(string \<times> snapshot option) list option"

definition window_step :: "int \<Rightarrow> snapshot list \<Rightarrow> string \<times> snapshot option \<Rightarrow> snapshot list" where
  "window_step cutoff scans file =
     (case snd file of
        None \<Rightarrow> scans
      | Some data \<Rightarrow> if ts_ge (timestamp data) (Some cutoff) then scans @ [data] else scans)"

text \<open>
  The key of the sort of line 37, \<^verbatim>\<open>new Date(a.timestamp)\<close> as a number. Only
  snapshots that passed \<^verbatim>\<open>ts >= cutoff\<close> are sorted, and they all have a timestamp.
\<close>

definition ts_key :: "snapshot \<Rightarrow> int" where
  "ts_key d = (case timestamp d of None \<Rightarrow> 0 | Some t \<Rightarrow> t)"

definition loadScans :: "int \<Rightarrow> data_dir \<Rightarrow> int \<Rightarrow> snapshot list" where
  "loadScans now dir hoursBack =
     (case dir of
        None \<Rightarrow> []
      | Some listing \<Rightarrow>
         (let cutoff = now - hoursBack * 60 * 60 * 1000;
              files = filter (\<lambda>f. endsWith (fst f) ''.json'') listing;
              scans = foldl (window_step cutoff) [] files
          in sort_key ts_key scans))"

subsection \<open>Notions used in the statements\<close>

text \<open>
  The snapshot collection a directory listing stands for: what parses from the files
  whose names end in \<^verbatim>\<open>.json\<close>, in listing order.
\<close>

definition json_snapshots :: "(string \<times> snapshot option) list \<Rightarrow> snapshot list" where
  "json_snapshots listing =
     List.map_filter snd (filter (\<lambda>f. endsWith (fst f) ''.json'') listing)"

text \<open>
  Rounding to the nearest integer, halves away from zero: the \<open>round\<close> of the
  specification's \<open>round((r - p) / p * 100)\<close>, applied to a number.
\<close>

definition round_half_away :: "rat \<Rightarrow> int" where
  "round_half_away x = (if x < 0 then - \<lfloor>- x + 1 / 2\<rfloor> else \<lfloor>x + 1 / 2\<rfloor>)"

text \<open>
  Removing the first \<^verbatim>\<open>$\<close> of a symbol, wherever it stands, said without the code's
  function: the text before it and the text after it.
\<close>

definition without_first_marker :: "string \<Rightarrow> string" where
  "without_first_marker s =
     (if CHR ''$'' \<in> set s
      then takeWhile (\<lambda>c. c \<noteq> CHR ''$'') s @ tl (dropWhile (\<lambda>c. c \<noteq> CHR ''$'') s)
      else s)"

text \<open>
  The normalization in the specification's words: a symbol that starts with the marker
  \<^verbatim>\<open>$\<close> loses it, any other symbol stays as it is.
\<close>

definition strip_leading_marker :: "string \<Rightarrow> string" where
  "strip_leading_marker s = (if startsWith s ''$'' then drop 1 s else s)"

text \<open>
  The pairs of all snapshots in order, the sum of the absolute values of their counts,
  and the condition under which the ticker aggregation adds exactly: no normalized
  symbol is a name that \<^verbatim>\<open>Object.prototype\<close> defines, and the counts stay below
  \<open>2^53\<close> in total.
\<close>

definition all_pairs :: "snapshot list \<Rightarrow> (string \<times> int) list" where
  "all_pairs scans = concat (map tickers_of scans)"

definition abs_total :: "(string \<times> int) list \<Rightarrow> int" where
  "abs_total ps = sum_list (map (\<lambda>p. \<bar>snd p\<bar>) ps)"

definition plain_symbols :: "(string \<times> int) list \<Rightarrow> bool" where
  "plain_symbols ps =
     list_all (\<lambda>p. without_first_marker (fst p) \<notin> set object_prototype_names) ps"

subsection \<open>Sample inputs\<close>

definition scan_with_sentiment :: "rat \<Rightarrow> rat \<Rightarrow> snapshot" where
  "scan_with_sentiment b r =
     \<lparr>timestamp = Some 0, sentiment = Some \<lparr>bullish = Some b, bearish = Some r\<rparr>,
      topTickers = None, byCategory = None, macroKeywords = None, commodityKeywords = None\<rparr>"

definition scan_with_tickers :: "int option \<Rightarrow> (string \<times> int) list \<Rightarrow> snapshot" where
  "scan_with_tickers t ts =
     \<lparr>timestamp = t, sentiment = None, topTickers = Some ts, byCategory = None,
      macroKeywords = None, commodityKeywords = None\<rparr>"

definition scan_with_keywords ::
  "category_obj option \<Rightarrow> (string \<times> int) list option \<Rightarrow> (string \<times> int) list option \<Rightarrow> snapshot" where
  "scan_with_keywords bc mk ck =
     \<lparr>timestamp = Some 0, sentiment = None, topTickers = None, byCategory = bc,
      macroKeywords = mk, commodityKeywords = ck\<rparr>"

definition scan_at :: "int option \<Rightarrow> snapshot" where
  "scan_at t =
     \<lparr>timestamp = t, sentiment = None, topTickers = None, byCategory = None,
      macroKeywords = None, commodityKeywords = None\<rparr>"

definition entry_with :: "string \<Rightarrow> string \<Rightarrow> momentum_entry" where
  "entry_with t d =
     \<lparr>ticker = t, recentRate = ''1.00'', priorRate = ''0.50'', change = Fin 100, direction = d\<rparr>"

text \<open>
  A history of 40 snapshots whose last 10 are the recent window: the first old snapshot
  carries the pairs \<open>old\<close>, the first recent one the pairs \<open>new\<close>.
\<close>

definition recent_window :: "(string \<times> int) list \<Rightarrow> snapshot list" where
  "recent_window new =
     scan_with_tickers (Some 100) new # replicate 9 (scan_with_tickers (Some 100) [])"

definition history :: "(string \<times> int) list \<Rightarrow> (string \<times> int) list \<Rightarrow> snapshot list" where
  "history old new =
     scan_with_tickers (Some 0) old # replicate 29 (scan_with_tickers (Some 0) [])
     @ recent_window new"

section \<open>Properties\<close>

subsection \<open>Rounding to binary64\<close>

lemma round_even_of_int: "round_even (of_int k) = k"
  by (simp add: round_even_def)

lemma round_even_error: "\<bar>of_int (round_even y) - y\<bar> \<le> 1 / 2"
proof -
  define d where "d = y - of_int \<lfloor>y\<rfloor>"
  have d: "0 \<le> d" "d < 1"
    unfolding d_def by linarith+
  have y: "y = of_int \<lfloor>y\<rfloor> + d"
    by (simp add: d_def)
  consider "d < 1 / 2" | "d > 1 / 2" | "d = 1 / 2"
    by linarith
  then show ?thesis
  proof cases
    case 1
    then have "round_even y = \<lfloor>y\<rfloor>"
      by (simp add: round_even_def Let_def d_def)
    then have "of_int (round_even y) - y = - d"
      by (simp add: d_def)
    with 1 d show ?thesis
      by linarith
  next
    case 2
    then have "round_even y = \<lfloor>y\<rfloor> + 1"
      by (simp add: round_even_def Let_def d_def)
    then have "of_int (round_even y) - y = 1 - d"
      by (simp add: d_def)
    with 2 d show ?thesis
      by linarith
  next
    case 3
    then have "round_even y = \<lfloor>y\<rfloor> \<or> round_even y = \<lfloor>y\<rfloor> + 1"
      by (simp add: round_even_def Let_def d_def)
    then have "of_int (round_even y) - y = - d \<or> of_int (round_even y) - y = 1 - d"
      by (auto simp: d_def)
    with 3 show ?thesis
      by linarith
  qed
qed

lemma ilog2_le:
  assumes "x > 0"
  shows "2 powi (ilog2 x) \<le> x"
proof -
  obtain a b where q: "quotient_of x = (a, b)"
    by (cases "quotient_of x")
  have b: "b > 0"
    using q by (rule quotient_of_denom_pos)
  have x: "x = of_int a / of_int b"
    using q by (rule quotient_of_div)
  have a: "a > 0"
    using assms b unfolding x by (simp add: zero_less_divide_iff)
  show ?thesis
  proof (cases "x < 2 powi (bitlen a - bitlen b)")
    case False
    then show ?thesis
      by (simp add: ilog2_def q)
  next
    case True
    have la: "bitlen a \<ge> 1" and lb: "bitlen b \<ge> 1"
      using a b bitlen_eq_zero_iff [of a] bitlen_eq_zero_iff [of b] bitlen_nonneg [of a] bitlen_nonneg [of b]
      by linarith+
    have "(2::rat) powi (bitlen a - 1 - bitlen b) = 2 powi (bitlen a - 1) / 2 powi (bitlen b)"
      by (simp add: power_int_diff)
    also have "\<dots> = 2 ^ nat (bitlen a - 1) / 2 ^ nat (bitlen b)"
      using la lb by (simp add: power_int_nonneg_exp)
    also have "\<dots> \<le> of_int a / of_int b"
    proof -
      have "(2::int) ^ nat (bitlen a - 1) \<le> a"
        using bitlen_bounds [OF a] by simp
      then have "(of_int (2 ^ nat (bitlen a - 1)) :: rat) \<le> of_int a"
        by (simp only: of_int_le_iff)
      then have A: "(2::rat) ^ nat (bitlen a - 1) \<le> of_int a"
        by simp
      have "b < 2 ^ nat (bitlen b)"
        using bitlen_bounds [OF b] by simp
      then have "(of_int b :: rat) < of_int (2 ^ nat (bitlen b))"
        by (simp only: of_int_less_iff)
      then have B: "(of_int b :: rat) \<le> 2 ^ nat (bitlen b)"
        by simp
      have C: "(0::rat) < of_int b"
        using b by simp
      have D: "(0::rat) \<le> of_int a"
        using a by simp
      from A B C D show ?thesis
        by (intro frac_le) simp_all
    qed
    finally have "(2::rat) powi (bitlen a - 1 - bitlen b) \<le> x"
      by (simp add: x)
    moreover have "ilog2 x = bitlen a - 1 - bitlen b"
      using True by (simp add: ilog2_def q)
    ultimately show ?thesis
      by simp
  qed
qed

lemma fl_0: "fl 0 = 0"
  by (simp add: fl_def)

text \<open>The relative error of one rounding is at most \<open>2^-53\<close>.\<close>

lemma fl_error: "\<bar>fl x - x\<bar> \<le> \<bar>x\<bar> / 2 ^ 53"
proof (cases "x = 0")
  case True
  then show ?thesis by (simp add: fl_def)
next
  case False
  define q :: rat where "q = 2 powi (ilog2 \<bar>x\<bar> - 52)"
  have qpos: "q > 0"
    by (simp add: q_def)
  have f: "fl x = of_int (round_even (x / q)) * q"
    using False by (simp add: fl_def q_def Let_def)
  have "\<bar>fl x - x\<bar> = \<bar>of_int (round_even (x / q)) - x / q\<bar> * q"
  proof -
    have "fl x - x = (of_int (round_even (x / q)) - x / q) * q"
      using qpos by (simp add: f field_simps)
    then show ?thesis
      using qpos by (simp add: abs_mult)
  qed
  also have "\<dots> \<le> 1 / 2 * q"
    using round_even_error [of "x / q"] qpos by (intro mult_right_mono) simp_all
  also have "\<dots> = 2 powi (ilog2 \<bar>x\<bar>) / 2 ^ 53"
  proof -
    have "q = 2 powi (ilog2 \<bar>x\<bar>) / 2 powi 52"
      unfolding q_def by (simp add: power_int_diff)
    then show ?thesis by simp
  qed
  also have "\<dots> \<le> \<bar>x\<bar> / 2 ^ 53"
    using ilog2_le [of "\<bar>x\<bar>"] False by (intro divide_right_mono) simp_all
  finally show ?thesis .
qed

lemma fl_pos: "x > 0 \<Longrightarrow> fl x > 0"
proof -
  assume x: "x > 0"
  have "x - fl x \<le> \<bar>fl x - x\<bar>" by simp
  also have "\<dots> \<le> x / 2 ^ 53"
    using fl_error [of x] x by simp
  finally have "fl x \<ge> x - x / 2 ^ 53" by simp
  moreover have "x - x / 2 ^ 53 > 0"
    using x by (simp add: field_simps)
  ultimately show ?thesis by linarith
qed

lemma fl_neg: "x < 0 \<Longrightarrow> fl x < 0"
proof -
  assume x: "x < 0"
  have "fl x - x \<le> \<bar>fl x - x\<bar>" by simp
  also have "\<dots> \<le> - x / 2 ^ 53"
    using fl_error [of x] x by simp
  finally have "fl x \<le> x - x / 2 ^ 53" by simp
  moreover have "x - x / 2 ^ 53 < 0"
    using x by (simp add: field_simps)
  ultimately show ?thesis by linarith
qed

lemma fl_pos_iff: "fl x > 0 \<longleftrightarrow> x > 0"
  using fl_pos [of x] fl_neg [of x] fl_0 by (cases "x = 0"; cases "x > 0") (auto simp: not_less)

text \<open>Integers below \<open>2^53\<close> in absolute value are doubles.\<close>

lemma fl_of_int:
  assumes "\<bar>i\<bar> < 2 ^ 53"
  shows "fl (of_int i) = of_int i"
proof (cases "i = 0")
  case True
  then show ?thesis by (simp add: fl_def)
next
  case False
  define e where "e = ilog2 \<bar>of_int i\<bar>"
  have "(2::rat) powi e \<le> \<bar>of_int i\<bar>"
    unfolding e_def using False by (intro ilog2_le) simp
  also have "\<dots> < 2 powi 53"
  proof -
    have "(of_int \<bar>i\<bar> :: rat) < of_int (2 ^ 53)"
      using assms by (simp only: of_int_less_iff)
    then show ?thesis by simp
  qed
  finally have "(2::rat) powi e < 2 powi 53" .
  then have "e < 53"
    by (rule power_int_le_imp_less_exp [rotated]) simp_all
  then have k: "52 - e \<ge> 0" by simp
  have q: "(2::rat) powi (e - 52) = 1 / 2 ^ nat (52 - e)"
  proof -
    have "(2::rat) powi (e - 52) = 2 powi (- (52 - e))" by simp
    also have "\<dots> = 1 / 2 powi (52 - e)"
      by (simp only: power_int_minus_divide)
    also have "\<dots> = 1 / 2 ^ nat (52 - e)"
      using k by (simp add: power_int_nonneg_exp)
    finally show ?thesis .
  qed
  have y: "of_int i / (2::rat) powi (e - 52) = of_int (i * 2 ^ nat (52 - e))"
    by (simp add: q)
  have "fl (of_int i) = of_int (round_even (of_int i / 2 powi (e - 52))) * 2 powi (e - 52)"
    using False by (simp add: fl_def e_def Let_def)
  also have "\<dots> = of_int (i * 2 ^ nat (52 - e)) * 2 powi (e - 52)"
    by (simp only: y round_even_of_int)
  also have "\<dots> = of_int i"
    by (simp add: q)
  finally show ?thesis .
qed

lemma as_number_safe: "\<bar>c\<bar> < 2 ^ 53 \<Longrightarrow> as_number c = c"
  by (simp add: as_number_def fl_of_int)

lemma int_add_safe: "\<bar>a + b\<bar> < 2 ^ 53 \<Longrightarrow> int_add a b = a + b"
  by (simp add: int_add_def as_number_safe)

text \<open>The noise floor of line 176 decides as the exact sum does.\<close>

lemma int_add_less_5: "int_add a b < 5 \<longleftrightarrow> a + b < 5"
proof -
  define s where "s = a + b"
  consider "\<bar>s\<bar> < 2 ^ 53" | "s \<ge> 2 ^ 53" | "s \<le> - (2 ^ 53)"
    by linarith
  then have "as_number s < 5 \<longleftrightarrow> s < 5"
  proof cases
    case 1
    then show ?thesis by (simp add: as_number_safe)
  next
    case 2
    then have big: "(of_int s :: rat) \<ge> 2 ^ 53"
    proof -
      from 2 have "(of_int (2 ^ 53) :: rat) \<le> of_int s"
        by (simp only: of_int_le_iff)
      then show ?thesis by simp
    qed
    have "\<bar>fl (of_int s) - of_int s\<bar> \<le> \<bar>of_int s :: rat\<bar> / 2 ^ 53"
      by (rule fl_error)
    with big have "fl (of_int s) \<ge> of_int s - of_int s / 2 ^ 53"
      by (simp add: abs_if split: if_splits)
    moreover have "(of_int s :: rat) - of_int s / 2 ^ 53 \<ge> 5"
      using big by (simp add: field_simps)
    ultimately have "(of_int 5 :: rat) \<le> fl (of_int s)"
      by simp
    then have "5 \<le> as_number s"
      unfolding as_number_def by (simp only: le_floor_iff)
    with 2 show ?thesis by simp
  next
    case 3
    then have "(of_int s :: rat) < 0"
      by simp
    then have "fl (of_int s) < of_int 5"
      using fl_neg [of "of_int s"] by simp
    then have "as_number s < 5"
      unfolding as_number_def by (simp only: floor_less_iff)
    with 3 show ?thesis by simp
  qed
  then show ?thesis
    by (simp add: int_add_def s_def)
qed

subsection \<open>Sentiment and regime\<close>

lemma reduce_sum_zero:
  "(\<forall>d \<in> set scans. f d = 0) \<Longrightarrow> reduce_sum f scans = 0"
  unfolding reduce_sum_def by (induction scans) (simp_all add: fadd_def fl_0)

text \<open>
  Whenever no snapshot reports a bearish value and the mean bullish value is positive,
  the ratio is the literal of line 59.
\<close>

lemma analyzeSentiment_unbounded_ratio:
  assumes "scans \<noteq> []"
    and "\<forall>d \<in> set scans. bearish_of d = 0"
    and "fdiv (reduce_sum bullish_of scans) (of_nat (length scans)) > 0"
  shows "ratio (analyzeSentiment scans) = JStr infinity_symbol"
  using assms by (simp add: analyzeSentiment_def Let_def reduce_sum_zero fdiv_def fl_0)

text \<open>
  That literal does not start a decimal literal, so \<^verbatim>\<open>parseFloat\<close> gives NaN; the
  same holds for the UTF-8 bytes of the infinity sign itself.
\<close>

lemma parseFloat_infinity_symbol: "parseFloat infinity_symbol = NaN"
  by code_simp

lemma parseFloat_infinity_sign: "parseFloat [CHR 0xE2, CHR 0x88, CHR 0x9E] = NaN"
  by code_simp

lemma getRegimeLabel_infinity_symbol:
  "label (getRegimeLabel (JStr infinity_symbol)) = ''BEARISH''"
  by (simp add: getRegimeLabel_def parseFloat_infinity_symbol)

text \<open>
  C1. One snapshot with bullish 80 and bearish 0: the ratio is the infinity literal, as
  the claim says, but \<^verbatim>\<open>getRegimeLabel\<close> puts it in the lowest tier, BEARISH, not in
  EUPHORIA. Every comparison of NaN with a threshold is false, so the chain of tests
  falls through to its last line.
\<close>

theorem C1_unbounded_ratio_is_bearish:
  "ratio (analyzeSentiment [scan_with_sentiment 80 0]) = JStr infinity_symbol \<and>
   label (getRegimeLabel (ratio (analyzeSentiment [scan_with_sentiment 80 0]))) = ''BEARISH'' \<and>
   label (getRegimeLabel (ratio (analyzeSentiment [scan_with_sentiment 80 0]))) \<noteq> ''EUPHORIA''"
  by code_simp

text \<open>
  C3, as stated: for the empty sequence the ratio is the string \<open>''0''\<close>. The early
  return of line 55 stores the number 0 instead.
\<close>

theorem C3_empty_ratio_not_string: "ratio (analyzeSentiment []) \<noteq> JStr ''0''"
  by (simp add: analyzeSentiment_def)

text \<open>
  C3, amended: for the empty snapshot sequence \<^verbatim>\<open>analyzeSentiment\<close> returns bull = 0,
  bear = 0 and ratio = 0, all three numbers, and trend = \<open>''UNKNOWN''\<close>.
\<close>

theorem C3_empty_sentiment:
  "analyzeSentiment [] =
     \<lparr>bull = JNum 0, bear = JNum 0, ratio = JNum 0, trend = ''UNKNOWN''\<rparr>"
  by (simp add: analyzeSentiment_def)

subsection \<open>The guard of the momentum detector\<close>

text \<open>
  C4. Whatever the snapshots hold, a history of fewer than 40 snapshots or a recent
  window of fewer than 10 makes \<^verbatim>\<open>getMomentum\<close> return the empty list. The function
  has no failing path before the guard of line 154; the empty list is its ordinary
  result.
\<close>

theorem C4_insufficient_data:
  "length allScans < 40 \<or> length recentScans < 10 \<Longrightarrow> getMomentum allScans recentScans = []"
  by (simp add: getMomentum_def)

theorem C4_insufficient_data_witness:
  "getMomentum (replicate 39 (scan_with_tickers (Some 0) [(''$BTC'', 50)]))
               (replicate 12 (scan_with_tickers (Some 0) [(''$BTC'', 50)])) = []
   \<and> getMomentum (replicate 50 (scan_with_tickers (Some 0) [(''$BTC'', 50)]))
                 (replicate 9 (scan_with_tickers (Some 9) [(''$ETH'', 70)])) = []"
  using C4_insufficient_data [of "replicate 39 (scan_with_tickers (Some 0) [(''$BTC'', 50)])"
                                  "replicate 12 (scan_with_tickers (Some 0) [(''$BTC'', 50)])"]
        C4_insufficient_data [of "replicate 50 (scan_with_tickers (Some 0) [(''$BTC'', 50)])"
                                  "replicate 9 (scan_with_tickers (Some 9) [(''$ETH'', 70)])"]
  by simp

subsection \<open>The fear classifier\<close>

lemma level_getFearLevel:
  "level (getFearLevel cs n) =
     (if perScan cs n \<ge> 5 then ''EXTREME''
      else if perScan cs n \<ge> 3 then ''HIGH''
      else if perScan cs n \<ge> 3 / 2 then ''ELEVATED''
      else ''NORMAL'')"
  by (simp add: getFearLevel_def Let_def)



text \<open>The same thresholds on the integers, for a positive scan count.\<close>

lemma fear_level_thresholds:
  assumes "n > 0"
  shows "level (getFearLevel cs n) = ''EXTREME'' \<longleftrightarrow> goldMentions cs \<ge> 5 * n"
    and "level (getFearLevel cs n) = ''HIGH'' \<longleftrightarrow> 3 * n \<le> goldMentions cs \<and> goldMentions cs < 5 * n"
    and "level (getFearLevel cs n) = ''ELEVATED'' \<longleftrightarrow> 3 * n \<le> 2 * goldMentions cs \<and> goldMentions cs < 3 * n"
proof -
  have a: "\<And>k::int. (of_int (goldMentions cs) / of_int n \<ge> (of_int k :: rat)) = (goldMentions cs \<ge> k * n)"
    using assms by (simp add: pos_le_divide_eq flip: of_int_mult)
  have b: "(of_int (goldMentions cs) / of_int n \<ge> (3 / 2 :: rat)) = (3 * n \<le> 2 * goldMentions cs)"
  proof -
    have "(of_int (goldMentions cs) / of_int n \<ge> (3 / 2 :: rat))
          = ((of_int (3 * n) :: rat) \<le> of_int (2 * goldMentions cs))"
      using assms by (simp add: field_simps)
    then show ?thesis by (simp only: of_int_le_iff)
  qed
  show "level (getFearLevel cs n) = ''EXTREME'' \<longleftrightarrow> goldMentions cs \<ge> 5 * n"
    using assms a[of 5] by (simp add: level_getFearLevel perScan_def)
  show "level (getFearLevel cs n) = ''HIGH'' \<longleftrightarrow> 3 * n \<le> goldMentions cs \<and> goldMentions cs < 5 * n"
    using assms a[of 5] a[of 3] by (auto simp add: level_getFearLevel perScan_def)
  show "level (getFearLevel cs n) = ''ELEVATED'' \<longleftrightarrow> 3 * n \<le> 2 * goldMentions cs \<and> goldMentions cs < 3 * n"
    using assms a[of 5] a[of 3] b by (auto simp add: level_getFearLevel perScan_def)
qed

subsection \<open>The commodity aggregation\<close>

lemma commodities_step_cong:
  "macroKeywords a = macroKeywords b \<Longrightarrow> commodityKeywords a = commodityKeywords b
   \<Longrightarrow> commodities_step acc a = commodities_step acc b"
  by (simp add: commodities_step_def Let_def)

lemma foldl_commodities_step_cong:
  "map macroKeywords xs = map macroKeywords ys \<Longrightarrow>
   map commodityKeywords xs = map commodityKeywords ys \<Longrightarrow>
   foldl commodities_step acc xs = foldl commodities_step acc ys"
proof (induction xs arbitrary: ys acc)
  case Nil
  then show ?case by simp
next
  case (Cons x xs)
  then obtain y ys' where ys: "ys = y # ys'" by (cases ys) auto
  with Cons.prems have "commodities_step acc x = commodities_step acc y"
    by (intro commodities_step_cong) simp_all
  with Cons ys show ?case by simp
qed

text \<open>
  C10. Two snapshot sequences that agree, snapshot by snapshot, on \<open>macroKeywords\<close>
  and on \<open>commodityKeywords\<close> get the same result from \<^verbatim>\<open>getCommodities\<close>, however
  their \<open>byCategory\<close> fields (and every other field) differ.
\<close>

theorem C10_commodities_ignore_byCategory:
  assumes "map macroKeywords scans = map macroKeywords scans'"
    and "map commodityKeywords scans = map commodityKeywords scans'"
  shows "getCommodities scans = getCommodities scans'"
proof -
  have "foldl commodities_step [] scans = foldl commodities_step [] scans'"
    using assms by (rule foldl_commodities_step_cong)
  then show ?thesis
    by (simp add: getCommodities_def)
qed

theorem C10_commodities_ignore_byCategory_witness:
  "getCommodities
     [scan_with_keywords (Some \<lparr>commodities = Some [(''gold'', 900)], metals = None\<rparr>)
        (Some [(''gold'', 3), (''fed'', 9)]) (Some [(''wheat'', 4)]),
      scan_with_keywords None None (Some [(''gold'', 2)])]
   = getCommodities
     [scan_with_keywords (Some \<lparr>commodities = None, metals = Some [(''silver'', 7)]\<rparr>)
        (Some [(''gold'', 3), (''fed'', 9)]) (Some [(''wheat'', 4)]),
      scan_with_keywords (Some \<lparr>commodities = Some [], metals = Some []\<rparr>) None (Some [(''gold'', 2)])]"
  by (rule C10_commodities_ignore_byCategory) (simp_all add: scan_with_keywords_def)

subsection \<open>Windowing\<close>

lemma foldl_window_step:
  "foldl (window_step c) acc files
   = acc @ filter (\<lambda>d. ts_ge (timestamp d) (Some c)) (List.map_filter snd files)"
proof (induction files arbitrary: acc)
  case Nil
  then show ?case by simp
next
  case (Cons f files)
  then show ?case
    by (cases "snd f") (simp_all add: window_step_def)
qed

lemma ts_ge_Some: "ts_ge a (Some c) = (case a of None \<Rightarrow> False | Some t \<Rightarrow> t \<ge> c)"
  by (simp add: ts_ge_def split: option.splits)

text \<open>The result of \<^verbatim>\<open>loadScans\<close> on an existing directory, for any window size.\<close>

lemma loadScans_Some:
  "loadScans now (Some listing) h
   = sort_key ts_key
       (filter (\<lambda>d. case timestamp d of None \<Rightarrow> False | Some t \<Rightarrow> t \<ge> now - h * 3600000)
          (json_snapshots listing))"
proof -
  have c: "now - h * 60 * 60 * 1000 = now - h * 3600000"
    by simp
  show ?thesis
    unfolding loadScans_def Let_def foldl_window_step json_snapshots_def ts_ge_Some c
    by simp
qed

text \<open>
  C7. For a window of \<open>h > 0\<close> hours the result of \<^verbatim>\<open>loadScans\<close> holds exactly the
  snapshots of the collection whose timestamp parses and is at least
  \<open>now - h\<close> hours (so it is a part of the collection, and a snapshot whose timestamp
  does not parse is left out), in ascending order of timestamp; an empty collection and
  a missing directory give the empty list.
\<close>

theorem C7_windowing:
  assumes "h > 0"
  shows "mset (loadScans now (Some listing) h)
           = mset (filter (\<lambda>d. case timestamp d of None \<Rightarrow> False
                                 | Some t \<Rightarrow> t \<ge> now - h * 3600000)
                     (json_snapshots listing))
         \<and> mset (loadScans now (Some listing) h) \<subseteq># mset (json_snapshots listing)
         \<and> sorted (map ts_key (loadScans now (Some listing) h))
         \<and> (\<forall>d \<in> set (loadScans now (Some listing) h).
               timestamp d = Some (ts_key d) \<and> ts_key d \<ge> now - h * 3600000)
         \<and> loadScans now (Some []) h = []
         \<and> loadScans now None h = []"
proof -
  let ?P = "\<lambda>d. case timestamp d of None \<Rightarrow> False | Some t \<Rightarrow> t \<ge> now - h * 3600000"
  have eq: "mset (loadScans now (Some listing) h) = mset (filter ?P (json_snapshots listing))"
    by (simp add: loadScans_Some)
  have sub: "mset (loadScans now (Some listing) h) \<subseteq># mset (json_snapshots listing)"
    unfolding eq by simp
  have srt: "sorted (map ts_key (loadScans now (Some listing) h))"
    by (simp add: loadScans_Some)
  have win: "\<forall>d \<in> set (loadScans now (Some listing) h).
               timestamp d = Some (ts_key d) \<and> ts_key d \<ge> now - h * 3600000"
    by (auto simp add: loadScans_Some ts_key_def split: option.splits)
  have e1: "loadScans now (Some []) h = []"
    by (simp add: loadScans_Some json_snapshots_def)
  have e2: "loadScans now None h = []"
    by (simp add: loadScans_def)
  from eq sub srt win e1 e2 show ?thesis by blast
qed

theorem C7_windowing_witness:
  "loadScans 360000000
     (Some [(''a.json'', Some (scan_at (Some 359999999))), (''b.txt'', Some (scan_at (Some 359999998))),
            (''c.json'', None), (''d.json'', Some (scan_at None)),
            (''e.json'', Some (scan_at (Some 0))), (''f.json'', Some (scan_at (Some 7))),
            (''g.json'', Some (scan_at (Some (- 1))))]) 100
   = [scan_at (Some 0), scan_at (Some 7), scan_at (Some 359999999)]
   \<and> sorted (map ts_key
        (loadScans 360000000
          (Some [(''a.json'', Some (scan_at (Some 359999999))), (''b.txt'', Some (scan_at (Some 359999998))),
            (''c.json'', None), (''d.json'', Some (scan_at None)),
            (''e.json'', Some (scan_at (Some 0))), (''f.json'', Some (scan_at (Some 7))),
            (''g.json'', Some (scan_at (Some (- 1))))]) 100))"
proof -
  have h: "(0::int) < 100" by simp
  have v: "loadScans 360000000
     (Some [(''a.json'', Some (scan_at (Some 359999999))), (''b.txt'', Some (scan_at (Some 359999998))),
            (''c.json'', None), (''d.json'', Some (scan_at None)),
            (''e.json'', Some (scan_at (Some 0))), (''f.json'', Some (scan_at (Some 7))),
            (''g.json'', Some (scan_at (Some (- 1))))]) 100
   = [scan_at (Some 0), scan_at (Some 7), scan_at (Some 359999999)]"
    by code_simp
  show ?thesis
    using C7_windowing [OF h, of 360000000
        "[(''a.json'', Some (scan_at (Some 359999999))), (''b.txt'', Some (scan_at (Some 359999998))),
            (''c.json'', None), (''d.json'', Some (scan_at None)),
            (''e.json'', Some (scan_at (Some 0))), (''f.json'', Some (scan_at (Some 7))),
            (''g.json'', Some (scan_at (Some (- 1))))]"] v
    by simp
qed

subsection \<open>Dictionary objects\<close>

lemma obj_get_Nil: "obj_get [] k = 0"
  by (simp add: obj_get_def)

lemma keys_bump:
  "map fst (map (\<lambda>(k', v). if k' = k then (k', g v) else (k', v)) m) = map fst m"
  by (induction m) auto

lemma map_of_bump:
  "map_of (map (\<lambda>(k', v). if k' = k then (k', g v) else (k', v)) m) k'
   = (if k' = k then map_option g (map_of m k') else map_of m k')"
  by (induction m) auto

lemma obj_add_proto: "obj_add m ''__proto__'' c = m"
  by (simp add: obj_add_def)

text \<open>
  An addition that stays below \<open>2^53\<close> is exact, and a key other than \<^verbatim>\<open>__proto__\<close>
  is updated or created.
\<close>

lemma obj_get_obj_add:
  assumes "k \<noteq> ''__proto__''" and "\<bar>c\<bar> < 2 ^ 53" and "\<bar>obj_get m k + c\<bar> < 2 ^ 53"
  shows "obj_get (obj_add m k c) k' = (if k' = k then obj_get m k + c else obj_get m k')"
proof (cases "k \<in> set (map fst m)")
  case True
  then obtain v where v: "map_of m k = Some v"
    by (metis map_of_eq_None_iff not_Some_eq set_map)
  then have "\<bar>v + c\<bar> < 2 ^ 53"
    using assms(3) by (simp add: obj_get_def)
  then have a: "int_add v (as_number c) = v + c"
    using assms(2) by (simp add: as_number_safe int_add_safe)
  from True assms(1)
  have "obj_add m k c
        = map (\<lambda>(k', v). if k' = k then (k', int_add v (as_number c)) else (k', v)) m"
    by (simp add: obj_add_def)
  then show ?thesis
    using v a by (simp add: obj_get_def map_of_bump)
next
  case False
  then have n: "map_of m k = None"
    by (metis map_of_eq_None_iff set_map)
  have a: "int_add 0 (as_number c) = c"
    using assms(2) by (simp add: as_number_safe int_add_safe)
  from False assms(1) have "obj_add m k c = m @ [(k, c)]"
    by (simp add: obj_add_def a)
  then show ?thesis
    using n by (simp add: obj_get_def map_add_def split: option.splits)
qed

lemma keys_obj_add:
  assumes "k \<noteq> ''__proto__''"
  shows "set (map fst (obj_add m k c)) = insert k (set (map fst m))"
proof (cases "k \<in> set (map fst m)")
  case True
  with assms
  have "obj_add m k c
        = map (\<lambda>(k', v). if k' = k then (k', int_add v (as_number c)) else (k', v)) m"
    by (simp add: obj_add_def)
  then have "map fst (obj_add m k c) = map fst m"
    by (simp only: keys_bump)
  with True show ?thesis
    by (simp only: insert_absorb)
next
  case False
  with assms have "obj_add m k c = m @ [(k, int_add 0 (as_number c))]"
    by (simp add: obj_add_def)
  then show ?thesis by simp
qed

lemma distinct_obj_add: "distinct (map fst m) \<Longrightarrow> distinct (map fst (obj_add m k c))"
proof (cases "k = ''__proto__''")
  case True
  then show "distinct (map fst m) \<Longrightarrow> ?thesis"
    by (simp add: obj_add_proto)
next
  case proto: False
  show "distinct (map fst m) \<Longrightarrow> ?thesis"
  proof (cases "k \<in> set (map fst m)")
    case True
    with proto
    have "obj_add m k c
          = map (\<lambda>(k', v). if k' = k then (k', int_add v (as_number c)) else (k', v)) m"
      by (simp add: obj_add_def)
    then have "map fst (obj_add m k c) = map fst m"
      by (simp only: keys_bump)
    then show "distinct (map fst m) \<Longrightarrow> ?thesis"
      by simp
  next
    case False
    with proto have "obj_add m k c = m @ [(k, int_add 0 (as_number c))]"
      by (simp add: obj_add_def)
    with False show "distinct (map fst m) \<Longrightarrow> ?thesis"
      by simp
  qed
qed

text \<open>The code's normalization is the removal of the first \<^verbatim>\<open>$\<close>.\<close>

lemma clean_ticker_eq: "clean_ticker s = without_first_marker s"
  unfolding clean_ticker_def without_first_marker_def
  by (induction s) auto

lemma abs_total_Cons: "abs_total (p # ps) = \<bar>snd p\<bar> + abs_total ps"
  by (simp add: abs_total_def)

lemma abs_total_nonneg: "0 \<le> abs_total ps"
  unfolding abs_total_def by (induction ps) auto

lemma plain_symbols_Cons:
  "plain_symbols (p # ps)
   \<longleftrightarrow> without_first_marker (fst p) \<notin> set object_prototype_names \<and> plain_symbols ps"
  by (simp add: plain_symbols_def)

lemma plain_not_proto:
  "k \<notin> set object_prototype_names \<Longrightarrow> k \<noteq> ''__proto__''"
  by (auto simp: object_prototype_names_def)

text \<open>
  The total of the counts that a list of pairs gives to one normalized symbol, and the
  keys after the pass, when the symbols are plain and the counts stay below \<open>2^53\<close>.
\<close>

lemma count_tickers_sums:
  assumes "plain_symbols ts" and "\<forall>k. \<bar>obj_get m k\<bar> + abs_total ts < 2 ^ 53"
  shows "(\<forall>k. obj_get (count_tickers m ts) k
              = obj_get m k
                + sum_list (map snd (filter (\<lambda>p. without_first_marker (fst p) = k) ts)))
         \<and> set (map fst (count_tickers m ts))
             = set (map fst m) \<union> without_first_marker ` fst ` set ts"
  using assms
proof (induction ts arbitrary: m)
  case Nil
  show ?case by (simp add: count_tickers_def)
next
  case (Cons p ts)
  obtain t c where p: "p = (t, c)"
    by (cases p)
  let ?k = "without_first_marker t"
  let ?m = "obj_add m ?k c"
  have step: "count_tickers m (p # ts) = count_tickers ?m ts"
    by (simp add: count_tickers_def p clean_ticker_eq)
  from Cons.prems(1) have plain: "plain_symbols ts"
    and np: "?k \<noteq> ''__proto__''"
    by (simp_all add: plain_symbols_Cons p plain_not_proto)
  from Cons.prems(2) have bound: "\<bar>obj_get m k'\<bar> + \<bar>c\<bar> + abs_total ts < 2 ^ 53" for k'
    by (simp add: abs_total_Cons p algebra_simps)
  have c: "\<bar>c\<bar> < 2 ^ 53"
    using bound [of ?k] abs_total_nonneg [of ts] by linarith
  have s: "\<bar>obj_get m ?k + c\<bar> < 2 ^ 53"
    using bound [of ?k] abs_total_nonneg [of ts] by linarith
  have get: "obj_get ?m k' = (if k' = ?k then obj_get m ?k + c else obj_get m k')" for k'
    using np c s by (rule obj_get_obj_add)
  have inv: "\<forall>k'. \<bar>obj_get ?m k'\<bar> + abs_total ts < 2 ^ 53"
  proof
    fix k'
    show "\<bar>obj_get ?m k'\<bar> + abs_total ts < 2 ^ 53"
      using bound [of k'] bound [of ?k] by (simp add: get) linarith
  qed
  note ih = Cons.IH [OF plain inv]
  from ih have ih1: "obj_get (count_tickers ?m ts) k
             = obj_get ?m k
               + sum_list (map snd (filter (\<lambda>p. without_first_marker (fst p) = k) ts))" for k
    by simp
  from ih have ih2: "set (map fst (count_tickers ?m ts))
              = set (map fst ?m) \<union> without_first_marker ` fst ` set ts"
    by simp
  have a: "\<forall>k. obj_get (count_tickers m (p # ts)) k
              = obj_get m k
                + sum_list (map snd (filter (\<lambda>p. without_first_marker (fst p) = k) (p # ts)))"
    unfolding step by (simp add: ih1 get p)
  have b: "set (map fst (count_tickers m (p # ts)))
             = set (map fst m) \<union> without_first_marker ` fst ` set (p # ts)"
  proof -
    have "fst ` set ?m = insert ?k (fst ` set m)"
      using keys_obj_add [OF np, of m c] by simp
    then show ?thesis
      unfolding step ih2 by (auto simp: p)
  qed
  from a b show ?case ..
qed

lemma distinct_count_tickers:
  "distinct (map fst m) \<Longrightarrow> distinct (map fst (count_tickers m ts))"
  unfolding count_tickers_def
  by (induction ts arbitrary: m) (auto simp: distinct_obj_add)

lemma count_tickers_append:
  "count_tickers m (xs @ ys) = count_tickers (count_tickers m xs) ys"
  by (simp add: count_tickers_def)

lemma foldl_count_tickers:
  "foldl (\<lambda>acc scan. count_tickers acc (tickers_of scan)) m scans
   = count_tickers m (concat (map tickers_of scans))"
proof (induction scans arbitrary: m)
  case Nil
  then show ?case by (simp add: count_tickers_def)
next
  case (Cons s scans)
  then show ?case by (simp add: count_tickers_append)
qed

lemma mset_object_entries: "mset (object_entries m) = mset m"
  by (simp add: object_entries_def)

lemma set_object_entries: "set (object_entries m) = set m"
  using mset_object_entries [of m] by (metis set_mset_mset)

lemma distinct_object_entries:
  "distinct (map fst (object_entries m)) = distinct (map fst m)"
proof -
  have "mset (map fst (object_entries m)) = mset (map fst m)"
    by (simp add: mset_object_entries)
  then show ?thesis
    by (metis distinct_count_atmost_1 set_mset_mset)
qed

lemma sort_desc_descending: "sorted_wrt (\<lambda>a b. snd a \<ge> snd b) (sort_desc es)"
proof -
  have "sorted (map (\<lambda>(k, v). - v) (sort_desc es))"
    unfolding sort_desc_def by (rule sorted_sort_key)
  then show ?thesis
    by (simp add: sorted_map case_prod_beta)
qed

lemma set_sort_desc: "set (sort_desc es) = set es"
  by (simp add: sort_desc_def)

lemma distinct_sort_desc: "distinct (map fst (sort_desc es)) = distinct (map fst es)"
proof -
  have "mset (map fst (sort_desc es)) = mset (map fst es)"
    by (simp add: sort_desc_def)
  then show ?thesis
    by (metis distinct_count_atmost_1 set_mset_mset)
qed

lemma sorted_wrt_take: "sorted_wrt P xs \<Longrightarrow> sorted_wrt P (take n xs)"
  by (metis append_take_drop_id sorted_wrt_append)

lemma distinct_map_take: "distinct (map f xs) \<Longrightarrow> distinct (map f (take n xs))"
  by (simp add: take_map [symmetric])

subsection \<open>The ticker aggregation\<close>

text \<open>The ranked pairs behind \<^verbatim>\<open>getTopTickers\<close>, before they become entries.\<close>

lemma getTopTickers_eq:
  "getTopTickers scans limit
   = map to_entry (take limit (sort_desc (object_entries (count_tickers [] (all_pairs scans)))))"
  by (simp add: getTopTickers_def foldl_count_tickers all_pairs_def)

lemma name_to_entry: "name (to_entry p) = fst p"
  by (cases p) (simp add: to_entry_def)

lemma mentions_to_entry: "mentions (to_entry p) = snd p"
  by (cases p) (simp add: to_entry_def)

lemma without_first_marker_leading: "without_first_marker (CHR ''$'' # sy) = sy"
  by (simp add: without_first_marker_def)

lemma without_first_marker_leading_eq:
  "startsWith sy ''$'' \<Longrightarrow> without_first_marker sy = strip_leading_marker sy"
  by (cases sy) (auto simp: startsWith_def strip_leading_marker_def without_first_marker_def)

lemma without_first_marker_none:
  "CHR ''$'' \<notin> set sy \<Longrightarrow> without_first_marker sy = strip_leading_marker sy"
  by (cases sy) (auto simp: startsWith_def strip_leading_marker_def without_first_marker_def)

lemma count_tickers_all:
  assumes "plain_symbols (all_pairs scans)" and "abs_total (all_pairs scans) < 2 ^ 53"
  shows "obj_get (count_tickers [] (all_pairs scans)) k
         = sum_list (map snd (filter (\<lambda>p. without_first_marker (fst p) = k) (all_pairs scans)))"
    and "set (map fst (count_tickers [] (all_pairs scans)))
         = without_first_marker ` fst ` set (all_pairs scans)"
proof -
  have "\<forall>k. \<bar>obj_get [] k\<bar> + abs_total (all_pairs scans) < 2 ^ 53"
    using assms(2) by (simp add: obj_get_Nil)
  from count_tickers_sums [OF assms(1) this]
  show "obj_get (count_tickers [] (all_pairs scans)) k
         = sum_list (map snd (filter (\<lambda>p. without_first_marker (fst p) = k) (all_pairs scans)))"
    and "set (map fst (count_tickers [] (all_pairs scans)))
         = without_first_marker ` fst ` set (all_pairs scans)"
    by (simp_all add: obj_get_Nil)
qed

lemma getTopTickers_mentions:
  assumes "plain_symbols (all_pairs scans)" and "abs_total (all_pairs scans) < 2 ^ 53"
    and "e \<in> set (getTopTickers scans limit)"
  shows "mentions e
         = sum_list (map snd (filter (\<lambda>p. without_first_marker (fst p) = name e)
                                 (all_pairs scans)))"
proof -
  let ?m = "count_tickers [] (all_pairs scans)"
  from assms(3) obtain p where p: "p \<in> set (take limit (sort_desc (object_entries ?m)))"
    and e: "e = to_entry p"
    by (auto simp: getTopTickers_eq)
  from p have "p \<in> set ?m"
    using set_sort_desc set_object_entries by (metis in_set_takeD)
  moreover have "distinct (map fst ?m)"
    by (rule distinct_count_tickers) simp
  ultimately have "map_of ?m (fst p) = Some (snd p)"
    by simp
  then have "snd p = obj_get ?m (fst p)"
    by (simp add: obj_get_def)
  then show ?thesis
    by (simp add: e name_to_entry mentions_to_entry count_tickers_all(1) [OF assms(1,2)])
qed

lemma getTopTickers_names_distinct: "distinct (map name (getTopTickers scans limit))"
proof -
  let ?m = "count_tickers [] (all_pairs scans)"
  have "distinct (map fst ?m)"
    by (rule distinct_count_tickers) simp
  then have "distinct (map fst (take limit (sort_desc (object_entries ?m))))"
    by (intro distinct_map_take) (simp add: distinct_sort_desc distinct_object_entries)
  moreover have "map name (getTopTickers scans limit)
                 = map fst (take limit (sort_desc (object_entries ?m)))"
    by (simp add: getTopTickers_eq name_to_entry)
  ultimately show ?thesis by simp
qed

lemma getTopTickers_descending:
  "sorted_wrt (\<lambda>a b. mentions a \<ge> mentions b) (getTopTickers scans limit)"
proof -
  let ?m = "count_tickers [] (all_pairs scans)"
  have "sorted_wrt (\<lambda>a b. snd a \<ge> snd b) (take limit (sort_desc (object_entries ?m)))"
    by (intro sorted_wrt_take sort_desc_descending)
  then show ?thesis
    by (simp add: getTopTickers_eq sorted_wrt_map mentions_to_entry)
qed

lemma getTopTickers_names:
  assumes "plain_symbols (all_pairs scans)" and "abs_total (all_pairs scans) < 2 ^ 53"
  shows "set (map name (getTopTickers scans limit))
           \<subseteq> without_first_marker ` fst ` set (all_pairs scans)"
    and "length (getTopTickers scans limit)
         = min limit (card (without_first_marker ` fst ` set (all_pairs scans)))"
proof -
  let ?m = "count_tickers [] (all_pairs scans)"
  let ?K = "without_first_marker ` fst ` set (all_pairs scans)"
  have names: "map name (getTopTickers scans limit)
               = take limit (map fst (sort_desc (object_entries ?m)))"
    by (simp add: getTopTickers_eq name_to_entry take_map)
  have keys: "set (map fst (sort_desc (object_entries ?m))) = ?K"
    using count_tickers_all(2) [OF assms]
    by (simp add: set_sort_desc set_object_entries)
  have dist: "distinct (map fst (sort_desc (object_entries ?m)))"
    by (simp add: distinct_sort_desc distinct_object_entries distinct_count_tickers)
  show "set (map name (getTopTickers scans limit)) \<subseteq> ?K"
    unfolding names using keys by (metis set_take_subset)
  have "length (map fst (sort_desc (object_entries ?m))) = card ?K"
    using dist keys by (metis distinct_card)
  then show "length (getTopTickers scans limit) = min limit (card ?K)"
    using names by (metis length_map length_take min.commute)
qed

text \<open>
  C6, as stated: for every snapshot set the leading marker is stripped and the counts
  are summed per normalized symbol. Three snapshot sets on which the code does
  otherwise. The symbol \<^verbatim>\<open>$__proto__\<close> is normalized to \<^verbatim>\<open>__proto__\<close>, and the assignment
  of line 78 to that key stores nothing: its 5 mentions are lost and no entry stands
  for it. The symbol \<^verbatim>\<open>BTC$\<close> has no leading marker, so it is its own normalized symbol;
  line 77 removes the marker at its end and its count goes to \<^verbatim>\<open>BTC\<close>. The counts
  \<open>2^53\<close> and 1 of one symbol are added to \<open>2^53\<close>, the nearest number the code can
  hold.
\<close>

theorem C6_symbols_dropped_or_merged:
  "strip_leading_marker ''$__proto__'' = ''__proto__''
   \<and> getTopTickers_default [scan_with_tickers (Some 1) [(''$__proto__'', 5), (''$BTC'', 1)]]
       = [\<lparr>name = ''BTC'', mentions = 1\<rparr>]
   \<and> strip_leading_marker ''BTC$'' = ''BTC$''
   \<and> getTopTickers_default [scan_with_tickers (Some 1) [(''BTC$'', 1), (''BTC'', 2)]]
       = [\<lparr>name = ''BTC'', mentions = 3\<rparr>]
   \<and> getTopTickers_default
         [scan_with_tickers (Some 1) [(''$BTC'', 9007199254740992)],
          scan_with_tickers (Some 2) [(''$BTC'', 1)]]
       = [\<lparr>name = ''BTC'', mentions = 9007199254740992\<rparr>]"
  by code_simp

text \<open>
  C6, amended: for every snapshot set in which no symbol, once its first \<^verbatim>\<open>$\<close> is
  removed, is a name that \<^verbatim>\<open>Object.prototype\<close> defines, and in which the absolute
  values of all counts add up to less than \<open>2^53\<close>. The normalization of
  \<^verbatim>\<open>getTopTickers\<close> removes the first \<^verbatim>\<open>$\<close> of a symbol, wherever it stands; for a
  symbol that starts with the marker, and for one that has no \<^verbatim>\<open>$\<close> at all, this is
  the normalization of the specification. Every entry returned carries the sum of the
  counts that all snapshots give to the symbols normalized to its name, and no name has
  two entries; every name is a normalized symbol of the input; the entries come in
  descending order of count; there are at most \<open>limit\<close> of them, namely \<open>limit\<close> or one
  for each normalized symbol, whichever is fewer; the default limit is 15; and the two
  snapshots \<^verbatim>\<open>[["$BTC",10]]\<close> and \<^verbatim>\<open>[["BTC",5]]\<close> give the single entry BTC with 15
  mentions.
\<close>

theorem C6_ticker_aggregation:
  assumes "plain_symbols (all_pairs scans)" and "abs_total (all_pairs scans) < 2 ^ 53"
  shows "clean_ticker sy = without_first_marker sy
   \<and> (startsWith sy ''$'' \<or> CHR ''$'' \<notin> set sy
        \<longrightarrow> clean_ticker sy = strip_leading_marker sy)
   \<and> (\<forall>e \<in> set (getTopTickers scans limit).
         mentions e = sum_list (map snd (filter (\<lambda>p. without_first_marker (fst p) = name e)
                                           (all_pairs scans))))
   \<and> distinct (map name (getTopTickers scans limit))
   \<and> set (map name (getTopTickers scans limit))
        \<subseteq> without_first_marker ` fst ` set (all_pairs scans)
   \<and> sorted_wrt (\<lambda>a b. mentions a \<ge> mentions b) (getTopTickers scans limit)
   \<and> length (getTopTickers scans limit) \<le> limit
   \<and> length (getTopTickers scans limit)
        = min limit (card (without_first_marker ` fst ` set (all_pairs scans)))
   \<and> getTopTickers_default scans = getTopTickers scans 15
   \<and> getTopTickers_default
         [scan_with_tickers t1 [(''$BTC'', 10)], scan_with_tickers t2 [(''BTC'', 5)]]
       = [\<lparr>name = ''BTC'', mentions = 15\<rparr>]"
proof -
  have ex: "getTopTickers_default
         [scan_with_tickers t1 [(''$BTC'', 10)], scan_with_tickers t2 [(''BTC'', 5)]]
       = [\<lparr>name = ''BTC'', mentions = 15\<rparr>]"
  proof -
    have a: "int_add 0 (as_number 10) = 10" and b: "int_add 10 (as_number 5) = 15"
      by code_simp+
    show ?thesis
      by (simp add: getTopTickers_default_def getTopTickers_def scan_with_tickers_def
          tickers_of_def count_tickers_def obj_add_def clean_ticker_def object_entries_def
          is_array_index_def is_digit_def sort_desc_def to_entry_def a b)
  qed
  have norm: "clean_ticker sy = strip_leading_marker sy"
    if "startsWith sy ''$'' \<or> CHR ''$'' \<notin> set sy"
    using that without_first_marker_leading_eq without_first_marker_none
    by (auto simp: clean_ticker_eq)
  have len: "length (getTopTickers scans limit) \<le> limit"
    by (simp add: getTopTickers_names(2) [OF assms])
  show ?thesis
    using clean_ticker_eq norm getTopTickers_mentions [OF assms]
      getTopTickers_names_distinct getTopTickers_names [OF assms]
      getTopTickers_descending len ex
    by (simp add: getTopTickers_default_def)
qed

theorem C6_ticker_aggregation_witness:
  "plain_symbols (all_pairs
     [scan_with_tickers (Some 1) [(''$BTC'', 10), (''$ETH'', 10), (''$7'', 1), (''$SOL'', 30)],
      scan_with_tickers (Some 2) [(''BTC'', 5), (''$SOL'', 1), (''$3'', 1)]])
   \<and> abs_total (all_pairs
     [scan_with_tickers (Some 1) [(''$BTC'', 10), (''$ETH'', 10), (''$7'', 1), (''$SOL'', 30)],
      scan_with_tickers (Some 2) [(''BTC'', 5), (''$SOL'', 1), (''$3'', 1)]]) = 58
   \<and> getTopTickers
     [scan_with_tickers (Some 1) [(''$BTC'', 10), (''$ETH'', 10), (''$7'', 1), (''$SOL'', 30)],
      scan_with_tickers (Some 2) [(''BTC'', 5), (''$SOL'', 1), (''$3'', 1)]] 3
   = [\<lparr>name = ''SOL'', mentions = 31\<rparr>, \<lparr>name = ''BTC'', mentions = 15\<rparr>,
      \<lparr>name = ''ETH'', mentions = 10\<rparr>]
   \<and> sorted_wrt (\<lambda>a b. mentions a \<ge> mentions b)
       (getTopTickers
         [scan_with_tickers (Some 1) [(''$BTC'', 10), (''$ETH'', 10), (''$7'', 1), (''$SOL'', 30)],
          scan_with_tickers (Some 2) [(''BTC'', 5), (''$SOL'', 1), (''$3'', 1)]] 3)
   \<and> distinct (map name
       (getTopTickers
         [scan_with_tickers (Some 1) [(''$BTC'', 10), (''$ETH'', 10), (''$7'', 1), (''$SOL'', 30)],
          scan_with_tickers (Some 2) [(''BTC'', 5), (''$SOL'', 1), (''$3'', 1)]] 3))
   \<and> length
       (getTopTickers
         [scan_with_tickers (Some 1) [(''$BTC'', 10), (''$ETH'', 10), (''$7'', 1), (''$SOL'', 30)],
          scan_with_tickers (Some 2) [(''BTC'', 5), (''$SOL'', 1), (''$3'', 1)]] 3) \<le> 3"
proof -
  let ?scans =
    "[scan_with_tickers (Some 1) [(''$BTC'', 10), (''$ETH'', 10), (''$7'', 1), (''$SOL'', 30)],
      scan_with_tickers (Some 2) [(''BTC'', 5), (''$SOL'', 1), (''$3'', 1)]]"
  have h1: "plain_symbols (all_pairs ?scans)"
    by code_simp
  have t: "abs_total (all_pairs ?scans) = 58"
    by code_simp
  then have h2: "abs_total (all_pairs ?scans) < 2 ^ 53"
    by simp
  have v: "getTopTickers ?scans 3
   = [\<lparr>name = ''SOL'', mentions = 31\<rparr>, \<lparr>name = ''BTC'', mentions = 15\<rparr>,
      \<lparr>name = ''ETH'', mentions = 10\<rparr>]"
    by code_simp
  show ?thesis
    using C6_ticker_aggregation [OF h1 h2, where sy = "''BTC''" and limit = 3] h1 t v
    by blast
qed

subsection \<open>The narrative\<close>

lemma sentence_heads:
  "hd opening_euphoria = CHR ''C''" "hd (opening_bullish s) = CHR ''S''"
  "hd opening_neutral = CHR ''M''" "hd opening_caution = CHR ''C''"
  "hd fear_extreme_sentence = CHR ''G''" "hd fear_high_sentence = CHR ''T''"
  "hd (rising_sentence ms) = CHR ''A''" "hd (falling_sentence ms) = CHR ''N''"
  by (simp_all add: opening_euphoria_def opening_bullish_def opening_neutral_def
      opening_caution_def fear_extreme_sentence_def fear_high_sentence_def
      rising_sentence_def falling_sentence_def)

lemma sentences_nonempty:
  "opening_euphoria \<noteq> []" "opening_bullish s \<noteq> []" "opening_neutral \<noteq> []"
  "opening_caution \<noteq> []" "fear_extreme_sentence \<noteq> []" "fear_high_sentence \<noteq> []"
  "rising_sentence ms \<noteq> []" "falling_sentence ms \<noteq> []"
  by (simp_all add: opening_euphoria_def opening_bullish_def opening_neutral_def
      opening_caution_def fear_extreme_sentence_def fear_high_sentence_def
      rising_sentence_def falling_sentence_def)

lemma startsWith_hd: "startsWith s (c # p) \<Longrightarrow> hd s = c"
  by (cases s) (auto simp: startsWith_def)

lemma rising_prefix: "startsWith (rising_sentence ms) ''Attention building on ''"
  by (simp add: rising_sentence_def startsWith_def)

lemma falling_prefix: "startsWith (falling_sentence ms) ''Narrative fading for ''"
  by (simp add: falling_sentence_def startsWith_def)

text \<open>The initials of the sentences of a narrative tell which sentences are there.\<close>

lemma narrative_initials:
  "map hd (narrative_parts s rg fr tickers momentum)
   = [if label rg = ''EUPHORIA'' then CHR ''C'' else if label rg = ''BULLISH'' then CHR ''S''
      else if label rg = ''NEUTRAL'' then CHR ''M'' else CHR ''C'']
     @ (if level fr = ''EXTREME'' then ''G'' else if level fr = ''HIGH'' then ''T'' else [])
     @ (if rising_of momentum \<noteq> [] then ''A'' else [])
     @ (if falling_of momentum \<noteq> [] then ''N'' else [])"
  by (simp add: narrative_parts_def Let_def sentence_heads)

lemma initial_in_parts:
  "p \<in> set (narrative_parts s rg fr tickers momentum)
   \<Longrightarrow> hd p \<in> set (map hd (narrative_parts s rg fr tickers momentum))"
  by (metis imageI set_map)

lemma fear_extreme_iff:
  "fear_extreme_sentence \<in> set (narrative_parts s rg fr tickers momentum)
   \<longleftrightarrow> level fr = ''EXTREME''"
proof
  assume "fear_extreme_sentence \<in> set (narrative_parts s rg fr tickers momentum)"
  from initial_in_parts [OF this] show "level fr = ''EXTREME''"
    unfolding narrative_initials sentence_heads by (auto split: if_splits)
next
  assume "level fr = ''EXTREME''"
  then show "fear_extreme_sentence \<in> set (narrative_parts s rg fr tickers momentum)"
    by (simp add: narrative_parts_def Let_def)
qed

lemma fear_high_iff:
  "fear_high_sentence \<in> set (narrative_parts s rg fr tickers momentum)
   \<longleftrightarrow> level fr = ''HIGH''"
proof
  assume "fear_high_sentence \<in> set (narrative_parts s rg fr tickers momentum)"
  from initial_in_parts [OF this] show "level fr = ''HIGH''"
    unfolding narrative_initials sentence_heads by (auto split: if_splits)
next
  assume "level fr = ''HIGH''"
  then show "fear_high_sentence \<in> set (narrative_parts s rg fr tickers momentum)"
    by (simp add: narrative_parts_def Let_def)
qed

lemma rising_of_empty:
  "rising_of momentum \<noteq> [] \<longleftrightarrow> (\<exists>m \<in> set momentum. direction m = ''up'' \<or> direction m = ''new'')"
  by (simp add: rising_of_def take_eq_Nil filter_empty_conv)

lemma falling_of_empty:
  "falling_of momentum \<noteq> [] \<longleftrightarrow> (\<exists>m \<in> set momentum. direction m = ''down'')"
  by (simp add: falling_of_def take_eq_Nil filter_empty_conv)

lemma rising_of_bound:
  "length (rising_of momentum) \<le> 3"
  "set (rising_of momentum) \<subseteq> {m \<in> set momentum. direction m = ''up'' \<or> direction m = ''new''}"
proof -
  show "length (rising_of momentum) \<le> 3"
    by (simp add: rising_of_def)
  have "set (rising_of momentum)
        \<subseteq> set (filter (\<lambda>m. direction m = ''up'' \<or> direction m = ''new'') momentum)"
    unfolding rising_of_def by (rule set_take_subset)
  then show "set (rising_of momentum)
             \<subseteq> {m \<in> set momentum. direction m = ''up'' \<or> direction m = ''new''}"
    by simp
qed

lemma falling_of_bound:
  "length (falling_of momentum) \<le> 3"
  "set (falling_of momentum) \<subseteq> {m \<in> set momentum. direction m = ''down''}"
proof -
  show "length (falling_of momentum) \<le> 3"
    by (simp add: falling_of_def)
  have "set (falling_of momentum) \<subseteq> set (filter (\<lambda>m. direction m = ''down'') momentum)"
    unfolding falling_of_def by (rule set_take_subset)
  then show "set (falling_of momentum) \<subseteq> {m \<in> set momentum. direction m = ''down''}"
    by simp
qed

lemma rising_sentence_only:
  assumes "p \<in> set (narrative_parts s rg fr tickers momentum)"
    and "startsWith p ''Attention building on ''"
  shows "p = rising_sentence (rising_of momentum) \<and> rising_of momentum \<noteq> []"
proof -
  from assms(2) have "hd p = CHR ''A''"
    by (rule startsWith_hd)
  with assms(1) show ?thesis
    by (auto simp: narrative_parts_def Let_def sentence_heads split: if_splits)
qed

lemma falling_sentence_only:
  assumes "p \<in> set (narrative_parts s rg fr tickers momentum)"
    and "startsWith p ''Narrative fading for ''"
  shows "p = falling_sentence (falling_of momentum) \<and> falling_of momentum \<noteq> []"
proof -
  from assms(2) have "hd p = CHR ''N''"
    by (rule startsWith_hd)
  with assms(1) show ?thesis
    by (auto simp: narrative_parts_def Let_def sentence_heads split: if_splits)
qed

lemma rising_sentence_present:
  "rising_of momentum \<noteq> []
   \<Longrightarrow> rising_sentence (rising_of momentum) \<in> set (narrative_parts s rg fr tickers momentum)"
  by (simp add: narrative_parts_def Let_def)

lemma falling_sentence_present:
  "falling_of momentum \<noteq> []
   \<Longrightarrow> falling_sentence (falling_of momentum) \<in> set (narrative_parts s rg fr tickers momentum)"
  by (simp add: narrative_parts_def Let_def)

lemma parts_nonempty: "[] \<notin> set (narrative_parts s rg fr tickers momentum)"
proof -
  have "list_all (\<lambda>p. p \<noteq> []) (narrative_parts s rg fr tickers momentum)"
    by (simp add: narrative_parts_def Let_def sentences_nonempty)
  then show ?thesis
    by (auto simp: list_all_iff)
qed

text \<open>
  C9. Of the sentences of a narrative: a fear-gauge sentence is among them exactly when
  the fear level is EXTREME or HIGH (the one for that level); a sentence that starts
  with \<open>Attention building on\<close> is among them exactly when some momentum entry has
  direction up or new, and it is the sentence that lists the first such entries, at
  most 3 of them; likewise the sentence that starts with \<open>Narrative fading for\<close> and
  the entries with direction down; no sentence is empty, and the narrative is the
  sentences with one blank between neighbours.
\<close>

theorem C9_narrative_sentences:
  "(let P = narrative_parts s rg fr tickers momentum in
     (fear_extreme_sentence \<in> set P \<longleftrightarrow> level fr = ''EXTREME'')
     \<and> (fear_high_sentence \<in> set P \<longleftrightarrow> level fr = ''HIGH'')
     \<and> ((\<exists>p \<in> set P. startsWith p ''Attention building on '')
          \<longleftrightarrow> (\<exists>m \<in> set momentum. direction m = ''up'' \<or> direction m = ''new''))
     \<and> (\<forall>p \<in> set P. startsWith p ''Attention building on ''
            \<longrightarrow> p = rising_sentence (rising_of momentum))
     \<and> length (rising_of momentum) \<le> 3
     \<and> set (rising_of momentum)
          \<subseteq> {m \<in> set momentum. direction m = ''up'' \<or> direction m = ''new''}
     \<and> ((\<exists>p \<in> set P. startsWith p ''Narrative fading for '')
          \<longleftrightarrow> (\<exists>m \<in> set momentum. direction m = ''down''))
     \<and> (\<forall>p \<in> set P. startsWith p ''Narrative fading for ''
            \<longrightarrow> p = falling_sentence (falling_of momentum))
     \<and> length (falling_of momentum) \<le> 3
     \<and> set (falling_of momentum) \<subseteq> {m \<in> set momentum. direction m = ''down''}
     \<and> [] \<notin> set P
     \<and> generateNarrative s rg fr tickers momentum = join '' '' P)"
proof -
  let ?P = "narrative_parts s rg fr tickers momentum"
  have r: "(\<exists>p \<in> set ?P. startsWith p ''Attention building on '')
          \<longleftrightarrow> (\<exists>m \<in> set momentum. direction m = ''up'' \<or> direction m = ''new'')"
    using rising_sentence_only [of _ s rg fr tickers momentum]
      rising_sentence_present [of momentum s rg fr tickers]
      rising_prefix [of "rising_of momentum"] rising_of_empty [of momentum]
    by blast
  have f: "(\<exists>p \<in> set ?P. startsWith p ''Narrative fading for '')
          \<longleftrightarrow> (\<exists>m \<in> set momentum. direction m = ''down'')"
    using falling_sentence_only [of _ s rg fr tickers momentum]
      falling_sentence_present [of momentum s rg fr tickers]
      falling_prefix [of "falling_of momentum"] falling_of_empty [of momentum]
    by blast
  have r1: "\<forall>p \<in> set ?P. startsWith p ''Attention building on ''
            \<longrightarrow> p = rising_sentence (rising_of momentum)"
    using rising_sentence_only [of _ s rg fr tickers momentum] by blast
  have f1: "\<forall>p \<in> set ?P. startsWith p ''Narrative fading for ''
            \<longrightarrow> p = falling_sentence (falling_of momentum)"
    using falling_sentence_only [of _ s rg fr tickers momentum] by blast
  have j: "generateNarrative s rg fr tickers momentum = join '' '' ?P"
    by (simp add: generateNarrative_def)
  show ?thesis
    unfolding Let_def
    using fear_extreme_iff [of s rg fr tickers momentum] fear_high_iff [of s rg fr tickers momentum]
      r r1 rising_of_bound [of momentum] f f1 falling_of_bound [of momentum]
      parts_nonempty [of s rg fr tickers momentum] j
    by blast
qed
theorem C9_narrative_sentences_witness:
  "level (getFearLevel [\<lparr>name = ''gold'', mentions = 4\<rparr>] 1) = ''HIGH''
   \<and> fear_high_sentence
       \<in> set (narrative_parts
                \<lparr>bull = JStr ''70.0'', bear = JStr ''20.0'', ratio = JStr ''3.50'', trend = ''RISING''\<rparr>
                (getRegimeLabel (JStr ''3.50'')) (getFearLevel [\<lparr>name = ''gold'', mentions = 4\<rparr>] 1) []
                [entry_with ''SOL'' ''new'', entry_with ''DOGE'' ''down'', entry_with ''BTC'' ''up'',
                 entry_with ''ETH'' ''up'', entry_with ''XRP'' ''up''])
   \<and> fear_extreme_sentence
       \<notin> set (narrative_parts
                \<lparr>bull = JStr ''70.0'', bear = JStr ''20.0'', ratio = JStr ''3.50'', trend = ''RISING''\<rparr>
                (getRegimeLabel (JStr ''3.50'')) (getFearLevel [\<lparr>name = ''gold'', mentions = 4\<rparr>] 1) []
                [entry_with ''SOL'' ''new'', entry_with ''DOGE'' ''down'', entry_with ''BTC'' ''up'',
                 entry_with ''ETH'' ''up'', entry_with ''XRP'' ''up''])
   \<and> generateNarrative
         \<lparr>bull = JStr ''70.0'', bear = JStr ''20.0'', ratio = JStr ''3.50'', trend = ''RISING''\<rparr>
         (getRegimeLabel (JStr ''3.50'')) (getFearLevel [\<lparr>name = ''gold'', mentions = 4\<rparr>] 1) []
         [entry_with ''SOL'' ''new'', entry_with ''DOGE'' ''down'', entry_with ''BTC'' ''up'',
          entry_with ''ETH'' ''up'', entry_with ''XRP'' ''up'']
       = ''Structural optimism holds with a 3.50:1 bull/bear ratio, though the mood is rising. ''
         @ fear_high_sentence
         @ '' Attention building on $SOL, $BTC, $ETH. Narrative fading for $DOGE.''"
proof -
  have lv: "level (getFearLevel [\<lparr>name = ''gold'', mentions = 4\<rparr>] 1) = ''HIGH''"
    by code_simp
  have v: "generateNarrative
         \<lparr>bull = JStr ''70.0'', bear = JStr ''20.0'', ratio = JStr ''3.50'', trend = ''RISING''\<rparr>
         (getRegimeLabel (JStr ''3.50'')) (getFearLevel [\<lparr>name = ''gold'', mentions = 4\<rparr>] 1) []
         [entry_with ''SOL'' ''new'', entry_with ''DOGE'' ''down'', entry_with ''BTC'' ''up'',
          entry_with ''ETH'' ''up'', entry_with ''XRP'' ''up'']
       = ''Structural optimism holds with a 3.50:1 bull/bear ratio, though the mood is rising. ''
         @ fear_high_sentence
         @ '' Attention building on $SOL, $BTC, $ETH. Narrative fading for $DOGE.''"
    by code_simp
  show ?thesis
    using C9_narrative_sentences
      [where fr = "getFearLevel [\<lparr>name = ''gold'', mentions = 4\<rparr>] 1"
         and s = "\<lparr>bull = JStr ''70.0'', bear = JStr ''20.0'', ratio = JStr ''3.50'', trend = ''RISING''\<rparr>"
         and rg = "getRegimeLabel (JStr ''3.50'')" and tickers = "[]"
         and momentum = "[entry_with ''SOL'' ''new'', entry_with ''DOGE'' ''down'', entry_with ''BTC'' ''up'',
            entry_with ''ETH'' ''up'', entry_with ''XRP'' ''up'']"] lv v
    by (simp add: Let_def)
qed

subsection \<open>Reading back what toFixed(0) prints\<close>

lemma digit_enum: "d < 10 \<Longrightarrow> d \<in> set [0, 1, 2, 3, 4, 5, 6, 7, 8, 9 :: nat]"
  by simp arith

lemma all_digit_chars:
  "\<forall>d \<in> set [0, 1, 2, 3, 4, 5, 6, 7, 8, 9 :: nat].
     is_digit (digit_char d) \<and> digit_val (digit_char d) = d"
  by (simp add: is_digit_def digit_char_def digit_val_def)

lemma digit_char_props:
  assumes "d < 10"
  shows "is_digit (digit_char d)" and "digit_val (digit_char d) = d"
  using all_digit_chars digit_enum [OF assms] by blast+

lemma all_digits:
  "\<forall>c \<in> set ''0123456789''.
     c \<notin> set ascii_ws \<and> c \<noteq> CHR 0xA0 \<and> c \<noteq> CHR 0xC2
     \<and> c \<notin> set [CHR 0xE1, CHR 0xE2, CHR 0xE3, CHR 0xEF]
     \<and> c \<noteq> CHR ''+'' \<and> c \<noteq> CHR ''-'' \<and> c \<noteq> CHR ''I'' \<and> c \<noteq> CHR ''.''
     \<and> c \<noteq> CHR ''e'' \<and> c \<noteq> CHR ''E''
     \<and> radix_digit c = digit_val c \<and> digit_val c < 10"
  by (simp add: ascii_ws_def radix_digit_def digit_val_def)

lemma is_digit_props:
  assumes "is_digit c"
  shows "c \<notin> set ascii_ws" and "c \<noteq> CHR 0xA0" and "c \<noteq> CHR 0xC2"
    and "c \<notin> set [CHR 0xE1, CHR 0xE2, CHR 0xE3, CHR 0xEF]"
    and "c \<noteq> CHR ''+''" and "c \<noteq> CHR ''-''" and "c \<noteq> CHR ''I''"
    and "radix_digit c = digit_val c" and "digit_val c < 10"
  using all_digits assms unfolding is_digit_def by blast+

lemma wide_ws_bytes:
  "\<forall>w \<in> set wide_ws. length w = 3
      \<and> hd w \<in> set [CHR 0xE1, CHR 0xE2, CHR 0xE3, CHR 0xEF] \<and> \<not> is_digit (last w)"
  by (simp add: wide_ws_def is_digit_def)

lemma digits_of_nonempty: "digits_of n \<noteq> []"
  by (subst digits_of.simps) simp

lemma digits_of_all_digits: "list_all is_digit (digits_of n)"
proof (induction n rule: digits_of.induct)
  case (1 n)
  show ?case
  proof (cases "n < 10")
    case True
    then show ?thesis
      by (subst digits_of.simps) (simp add: digit_char_props)
  next
    case False
    with 1 show ?thesis
      by (subst digits_of.simps) (simp add: digit_char_props)
  qed
qed

lemma digits_val_snoc: "digits_val (ds @ [c]) = 10 * digits_val ds + digit_val c"
  by (simp add: digits_val_def)

lemma digits_val_digits_of: "digits_val (digits_of n) = n"
proof (induction n rule: digits_of.induct)
  case (1 n)
  show ?case
  proof (cases "n < 10")
    case True
    then show ?thesis
      by (subst digits_of.simps) (simp add: digits_val_def digit_char_props)
  next
    case False
    with 1 show ?thesis
      by (subst digits_of.simps) (simp add: digits_val_snoc digit_char_props)
  qed
qed

lemma radix_val_digits:
  "list_all is_digit ds \<Longrightarrow> foldl (\<lambda>acc c. 10 * acc + radix_digit c) a ds
                               = foldl (\<lambda>acc c. 10 * acc + digit_val c) a ds"
  by (induction ds arbitrary: a) (simp_all add: is_digit_props)

text \<open>White space is neither at the front nor at the end of a run of digits.\<close>

lemma ws_len_zero:
  assumes "c \<notin> set ascii_ws" and "c \<noteq> CHR 0xC2"
    and "c \<notin> set [CHR 0xE1, CHR 0xE2, CHR 0xE3, CHR 0xEF]"
  shows "ws_len (c # r) = 0"
proof -
  have "take 3 (c # r) \<notin> set wide_ws"
  proof
    assume "take 3 (c # r) \<in> set wide_ws"
    then have "hd (take 3 (c # r)) \<in> set [CHR 0xE1, CHR 0xE2, CHR 0xE3, CHR 0xEF]"
      using wide_ws_bytes by blast
    with assms(3) show False by simp
  qed
  with assms(1,2) show ?thesis
    by (simp add: ws_len_def)
qed

lemma skip_ws_digit:
  assumes "is_digit c"
  shows "skip_ws (c # r) = c # r"
proof -
  have "ws_len (c # r) = 0"
    by (rule ws_len_zero) (rule is_digit_props [OF assms])+
  then show ?thesis
    by (subst skip_ws.simps) simp
qed

lemma skip_ws_minus: "skip_ws (CHR ''-'' # r) = CHR ''-'' # r"
  by (subst skip_ws.simps) (simp add: ws_len_zero ascii_ws_def)

lemma ws_len_end_digit:
  assumes "s \<noteq> []" and "is_digit (last s)"
  shows "ws_len_end s = 0"
proof -
  have a: "last s \<notin> set ascii_ws"
    using assms(2) by (rule is_digit_props)
  have b: "drop (length s - 2) s \<noteq> [CHR 0xC2, CHR 0xA0]"
  proof
    assume e: "drop (length s - 2) s = [CHR 0xC2, CHR 0xA0]"
    then have "last (drop (length s - 2) s) = CHR 0xA0" by simp
    moreover from e have "length s - 2 < length s"
      by (metis drop_all linorder_not_less list.distinct(1))
    ultimately have "last s = CHR 0xA0"
      by (simp add: last_drop)
    with assms(2) show False
      using is_digit_props(2) by blast
  qed
  have c: "drop (length s - 3) s \<notin> set wide_ws"
  proof
    assume e: "drop (length s - 3) s \<in> set wide_ws"
    then have w: "length (drop (length s - 3) s) = 3" "\<not> is_digit (last (drop (length s - 3) s))"
      using wide_ws_bytes by blast+
    then have "length s - 3 < length s"
      by (metis drop_all linorder_not_less list.size(3) zero_neq_numeral)
    then have "last (drop (length s - 3) s) = last s"
      by (simp add: last_drop)
    with w(2) assms(2) show False by simp
  qed
  from a b c show ?thesis
    by (simp add: ws_len_end_def Let_def)
qed

lemma trim_end_digit: "s \<noteq> [] \<Longrightarrow> is_digit (last s) \<Longrightarrow> trim_end s = s"
  by (subst trim_end.simps) (simp add: ws_len_end_digit)

text \<open>A run of digits, alone or after a minus sign, as the three readers see it.\<close>

lemma no_radix_prefix:
  assumes "list_all is_digit ds" and "\<not> is_digit x"
  shows "\<not> startsWith ds [z, x]"
proof
  assume "startsWith ds [z, x]"
  then have "take (length [z, x]) ds = [z, x]"
    by (simp only: startsWith_def)
  then have "x \<in> set ds"
    by (metis in_set_takeD list.set_intros(1) list.set_intros(2))
  with assms show False
    by (simp add: list_all_iff)
qed

lemma prefixed_literal_digits:
  assumes "list_all is_digit ds"
  shows "prefixed_literal ds 16 ''0x'' ''0X'' = None"
    and "prefixed_literal ds 8 ''0o'' ''0O'' = None"
    and "prefixed_literal ds 2 ''0b'' ''0B'' = None"
  using no_radix_prefix [OF assms, of "CHR ''x''"] no_radix_prefix [OF assms, of "CHR ''X''"]
    no_radix_prefix [OF assms, of "CHR ''o''"] no_radix_prefix [OF assms, of "CHR ''O''"]
    no_radix_prefix [OF assms, of "CHR ''b''"] no_radix_prefix [OF assms, of "CHR ''B''"]
  by (simp_all add: prefixed_literal_def is_digit_def)

lemma prefixed_literal_minus:
  "prefixed_literal (CHR ''-'' # ds) b [CHR ''0'', x] [CHR ''0'', y] = None"
  by (simp add: prefixed_literal_def startsWith_def)

lemma parse_unsigned_digits:
  assumes "ds \<noteq> []" and "list_all is_digit ds"
  shows "parse_unsigned ds = Some (of_nat (digits_val ds), [])"
proof -
  have t: "takeWhile is_digit ds = ds" and d: "dropWhile is_digit ds = []"
    using assms(2) by (simp_all add: list_all_iff)
  show ?thesis
    using assms(1) by (simp add: parse_unsigned_def t d parse_exponent_def digits_val_def)
qed

lemma parse_decimal_digits:
  assumes "ds \<noteq> []" and "list_all is_digit ds"
  shows "parse_decimal ds = Some (Fin (of_nat (digits_val ds)), [])"
    and "parse_decimal (CHR ''-'' # ds) = Some (Fin (- of_nat (digits_val ds)), [])"
proof -
  from assms obtain c r where ds: "ds = c # r" and c: "is_digit c"
    by (cases ds) auto
  have s: "parse_sign ds = (False, ds)"
    using c by (simp add: ds parse_sign_def is_digit_props)
  have i: "\<not> startsWith ds ''Infinity''"
    using c by (simp add: ds startsWith_def is_digit_props)
  show "parse_decimal ds = Some (Fin (of_nat (digits_val ds)), [])"
    by (simp add: parse_decimal_def s i parse_unsigned_digits [OF assms])
  have s': "parse_sign (CHR ''-'' # ds) = (True, ds)"
    by (simp add: parse_sign_def)
  show "parse_decimal (CHR ''-'' # ds) = Some (Fin (- of_nat (digits_val ds)), [])"
    by (simp add: parse_decimal_def s' i parse_unsigned_digits [OF assms])
qed

lemma toNumber_digits:
  assumes "ds \<noteq> []" and "list_all is_digit ds"
  shows "toNumber ds = Fin (of_nat (digits_val ds))"
    and "toNumber (CHR ''-'' # ds) = Fin (- of_nat (digits_val ds))"
proof -
  from assms obtain c r where ds: "ds = c # r" and c: "is_digit c"
    by (cases ds) auto
  have l: "is_digit (last ds)"
    using assms by (simp add: list_all_iff)
  have k1: "skip_ws ds = ds"
    using c by (simp add: ds skip_ws_digit)
  have t1: "trim_end ds = ds"
    using assms(1) l by (rule trim_end_digit)
  have t2: "trim_end (CHR ''-'' # ds) = CHR ''-'' # ds"
    using assms(1) l by (intro trim_end_digit) simp_all
  show "toNumber ds = Fin (of_nat (digits_val ds))"
    using assms(1)
    by (simp add: toNumber_def k1 t1 prefixed_literal_digits [OF assms(2)]
        parse_decimal_digits [OF assms])
  show "toNumber (CHR ''-'' # ds) = Fin (- of_nat (digits_val ds))"
    by (simp add: toNumber_def skip_ws_minus t2 prefixed_literal_minus
        parse_decimal_digits [OF assms])
qed

lemma parseInt_digits:
  assumes "ds \<noteq> []" and "list_all is_digit ds"
  shows "parseInt ds = Fin (of_nat (digits_val ds))"
    and "parseInt (CHR ''-'' # ds) = Fin (- of_nat (digits_val ds))"
proof -
  from assms obtain c r where ds: "ds = c # r" and c: "is_digit c"
    by (cases ds) auto
  have k1: "skip_ws ds = ds"
    using c by (simp add: ds skip_ws_digit)
  have s: "parse_sign ds = (False, ds)"
    using c by (simp add: ds parse_sign_def is_digit_props)
  have s': "parse_sign (CHR ''-'' # ds) = (True, ds)"
    by (simp add: parse_sign_def)
  have h: "\<not> startsWith ds ''0x''" "\<not> startsWith ds ''0X''"
    using no_radix_prefix [OF assms(2), of "CHR ''x''"] no_radix_prefix [OF assms(2), of "CHR ''X''"]
    by (simp_all add: is_digit_def)
  have "list_all (\<lambda>c. radix_digit c < 10) ds"
    using assms(2) by (simp add: list_all_iff is_digit_props)
  then have t: "takeWhile (\<lambda>c. radix_digit c < 10) ds = ds"
    by (simp add: list_all_iff)
  have v: "radix_val 10 ds = digits_val ds"
    unfolding radix_val_def digits_val_def using assms(2) by (rule radix_val_digits)
  show "parseInt ds = Fin (of_nat (digits_val ds))"
    using assms(1) by (simp add: parseInt_def k1 s h t v)
  show "parseInt (CHR ''-'' # ds) = Fin (- of_nat (digits_val ds))"
    using assms(1) by (simp add: parseInt_def skip_ws_minus s' h t v)
qed

lemma toFixed_0: "toFixed 0 x = (if x < 0 then ''-'' else []) @ digits_of (toFixed_scaled 0 x)"
  by (simp add: toFixed_def Let_def)

lemma toFixed_scaled_0:
  "int (toFixed_scaled 0 x) = (if x < 0 then - round_half_away x else round_half_away x)"
proof -
  have "0 \<le> \<lfloor>\<bar>x\<bar> + 1 / 2\<rfloor>"
    by (simp add: zero_le_floor)
  then show ?thesis
    by (simp add: toFixed_scaled_def round_half_away_def abs_if)
qed

text \<open>
  \<^verbatim>\<open>Number\<close> and \<^verbatim>\<open>parseInt\<close> both read the text of \<^verbatim>\<open>toFixed(0)\<close> as the rounded
  value.
\<close>

lemma read_toFixed_0:
  "toNumber (toFixed 0 x) = Fin (of_int (round_half_away x))"
  "parseInt (toFixed 0 x) = Fin (of_int (round_half_away x))"
proof -
  let ?ds = "digits_of (toFixed_scaled 0 x)"
  have ne: "?ds \<noteq> []" and dg: "list_all is_digit ?ds"
    by (rule digits_of_nonempty, rule digits_of_all_digits)
  have v: "(of_nat (digits_val ?ds) :: rat) = of_int (int (toFixed_scaled 0 x))"
    by (simp add: digits_val_digits_of)
  show "toNumber (toFixed 0 x) = Fin (of_int (round_half_away x))"
    by (simp add: toFixed_0 toNumber_digits [OF ne dg] v toFixed_scaled_0)
  show "parseInt (toFixed 0 x) = Fin (of_int (round_half_away x))"
    by (simp add: toFixed_0 parseInt_digits [OF ne dg] v toFixed_scaled_0)
qed

subsection \<open>The momentum detector\<close>

text \<open>One rounding moves a number by at most one part in \<open>2^53\<close>.\<close>

lemma fl_bounds:
  assumes "x \<ge> 0"
  shows "x - x / 9007199254740992 \<le> fl x" and "fl x \<le> x + x / 9007199254740992"
proof -
  have "\<bar>fl x - x\<bar> \<le> \<bar>x\<bar> / 2 ^ 53"
    by (rule fl_error)
  then have "\<bar>fl x - x\<bar> \<le> x / 9007199254740992"
    using assms by simp
  then show "x - x / 9007199254740992 \<le> fl x" and "fl x \<le> x + x / 9007199254740992"
    by linarith+
qed

text \<open>
  The percent change of line 182 when the recent rate is 1.3 times the prior one, up to
  one part in a million: the three roundings keep it between 29.9 and 30.1.
\<close>

lemma pct_double_near_30:
  assumes "p > 0" and "\<bar>r - 13 / 10 * p\<bar> \<le> p / 1000000"
  shows "299 / 10 \<le> pct_double r p" and "pct_double r p \<le> 301 / 10"
proof -
  define d where "d = r - p"
  define s where "s = fl d"
  define y where "y = s / p"
  define q where "q = fl y"
  have d: "2999 / 10000 * p \<le> d" "d \<le> 3001 / 10000 * p"
    using assms unfolding d_def by linarith+
  then have d0: "d \<ge> 0"
    using assms(1) by linarith
  have s: "2998 / 10000 * p \<le> s" "s \<le> 3002 / 10000 * p"
    using fl_bounds [OF d0] d assms(1) unfolding s_def by linarith+
  have y: "2998 / 10000 \<le> y" "y \<le> 3002 / 10000"
    using s assms(1) unfolding y_def by (simp_all add: pos_le_divide_eq pos_divide_le_eq)
  then have y0: "y \<ge> 0"
    by linarith
  have q: "2997 / 10000 \<le> q" "q \<le> 3003 / 10000"
    using fl_bounds [OF y0] y unfolding q_def by linarith+
  then have q0: "q * 100 \<ge> 0"
    by linarith
  have x: "pct_double r p = fl (q * 100)"
    by (simp add: pct_double_def fmul_def fdiv_def fsub_def q_def y_def s_def d_def)
  show "299 / 10 \<le> pct_double r p" and "pct_double r p \<le> 301 / 10"
    unfolding x using fl_bounds [OF q0] q by linarith+
qed

lemma round_half_away_near_30:
  assumes "299 / 10 \<le> x" and "x \<le> 301 / 10"
  shows "round_half_away x = 30" and "toFixed 0 x = ''30''"
proof -
  have f: "\<lfloor>x + 1 / 2\<rfloor> = 30"
    using assms by (intro floor_unique) simp_all
  then show c: "round_half_away x = 30"
    using assms by (simp add: round_half_away_def)
  have "int (toFixed_scaled 0 x) = 30"
    using assms c by (simp add: toFixed_scaled_0)
  then have "toFixed_scaled 0 x = 30"
    by linarith
  moreover have "digits_of 30 = ''30''"
    by code_simp
  ultimately show "toFixed 0 x = ''30''"
    using assms by (simp add: toFixed_0)
qed

text \<open>Rates that are in the proportion 13 to 10 before they are rounded.\<close>

lemma rounded_rates_near:
  assumes "P > 0" and "R = 13 / 10 * P"
  shows "\<bar>fl R - 13 / 10 * fl P\<bar> \<le> fl P / 1000000"
proof -
  have R0: "R \<ge> 0" and P0: "P \<ge> 0"
    using assms by simp_all
  note r = fl_bounds [OF R0] and p = fl_bounds [OF P0]
  show ?thesis
    using r p assms by linarith
qed

text \<open>The loop body for a ticker with a positive prior rate, in numbers.\<close>

lemma momentum_row_prior:
  fixes rt pt :: counts and n m :: nat and t :: string
  defines "r \<equiv> fdiv (of_int (obj_get rt t)) (of_nat m)"
    and "p \<equiv> fdiv (of_int (obj_get pt t)) (of_int (prior_denominator n m))"
  assumes "p > 0"
  shows "momentum_row rt pt n m t
         = (if obj_get rt t + obj_get pt t < 5 then None
            else if \<bar>round_half_away (pct_double r p)\<bar> > 30
            then Some \<lparr>ticker = t, recentRate = toFixed 2 r, priorRate = toFixed 2 p,
                       change = Fin (of_int (round_half_away (pct_double r p))),
                       direction = (if round_half_away (pct_double r p) > 0
                                    then ''up'' else ''down'')\<rparr>
            else None)"
proof -
  have a: "((30::rat) < \<bar>of_int c\<bar>) = (30 < \<bar>c\<bar>)" for c :: int
  proof -
    have "((30::rat) < \<bar>of_int c\<bar>) = ((of_int 30 :: rat) < of_int \<bar>c\<bar>)"
      by simp
    also have "\<dots> = (30 < \<bar>c\<bar>)"
      by (simp only: of_int_less_iff)
    finally show ?thesis .
  qed
  show ?thesis
    using assms(3) unfolding r_def p_def
    by (simp add: momentum_row_def Let_def read_toFixed_0 a int_add_less_5)
qed

lemma momentum_row_new:
  fixes rt pt :: counts and n m :: nat and t :: string
  assumes "\<not> fdiv (of_int (obj_get pt t)) (of_int (prior_denominator n m)) > 0"
  shows "momentum_row rt pt n m t
         = (if obj_get rt t + obj_get pt t < 5 then None
            else if obj_get rt t \<ge> 3
            then Some \<lparr>ticker = t,
                       recentRate = toFixed 2 (fdiv (of_int (obj_get rt t)) (of_nat m)),
                       priorRate = ''0.00'', change = Fin 999, direction = ''new''\<rparr>
            else None)"
  using assms by (simp add: momentum_row_def Let_def int_add_less_5)


lemma momentum_row_ticker: "momentum_row rt pt n m t = Some e \<Longrightarrow> ticker e = t"
  by (auto simp: momentum_row_def Let_def split: if_splits)

lemma momentum_row_change_finite:
  "momentum_row rt pt n m t = Some e \<Longrightarrow> \<exists>c :: int. change e = Fin (of_int c)"
proof (cases "fdiv (of_int (obj_get pt t)) (of_int (prior_denominator n m)) > 0")
  case True
  assume "momentum_row rt pt n m t = Some e"
  then show ?thesis
    unfolding momentum_row_prior [OF True] by (auto split: if_splits)
next
  case False
  assume "momentum_row rt pt n m t = Some e"
  then have "change e = Fin (of_int 999)"
    unfolding momentum_row_new [OF False] by (auto split: if_splits)
  then show ?thesis by blast
qed

lemma momentum_row_prior_entry:
  fixes rt pt :: counts and n m :: nat and t :: string
  defines "r \<equiv> fdiv (of_int (obj_get rt t)) (of_nat m)"
    and "p \<equiv> fdiv (of_int (obj_get pt t)) (of_int (prior_denominator n m))"
  assumes "p > 0" and "momentum_row rt pt n m t = Some e"
  shows "\<bar>round_half_away (pct_double r p)\<bar> > 30 \<and> ticker e = t
         \<and> change e = Fin (of_int (round_half_away (pct_double r p)))
         \<and> direction e = (if round_half_away (pct_double r p) > 0 then ''up'' else ''down'')"
  using assms(4) momentum_row_prior [of pt t n m rt] assms(3)
  unfolding r_def p_def by (auto split: if_splits)

text \<open>The keys of the two buckets are normalized symbols of the history.\<close>

lemma keys_obj_add_subset: "set (map fst (obj_add m k c)) \<subseteq> insert k (set (map fst m))"
proof (cases "k = ''__proto__''")
  case True
  then show ?thesis
    by (auto simp: obj_add_proto)
next
  case False
  then show ?thesis
    using keys_obj_add [of k m c] by simp
qed

lemma keys_count_tickers_subset:
  "set (map fst (count_tickers m ts))
   \<subseteq> set (map fst m) \<union> without_first_marker ` fst ` set ts"
proof (induction ts arbitrary: m)
  case Nil
  show ?case by (simp add: count_tickers_def)
next
  case (Cons p ts)
  obtain t c where p: "p = (t, c)"
    by (cases p)
  have step: "count_tickers m (p # ts) = count_tickers (obj_add m (without_first_marker t) c) ts"
    by (simp add: count_tickers_def p clean_ticker_eq)
  show ?case
    unfolding step using Cons.IH [of "obj_add m (without_first_marker t) c"]
      keys_obj_add_subset [of m "without_first_marker t" c]
    by (auto simp: p)
qed

lemma keys_bucket_fold:
  "set (map fst (fst (foldl (bucket_step rs) st scans)))
     \<union> set (map fst (snd (foldl (bucket_step rs) st scans)))
   \<subseteq> set (map fst (fst st)) \<union> set (map fst (snd st))
       \<union> without_first_marker ` fst ` set (all_pairs scans)"
proof (induction scans arbitrary: st)
  case Nil
  show ?case by (simp add: all_pairs_def)
next
  case (Cons scan scans)
  have one: "set (map fst (fst (bucket_step rs st scan)))
               \<union> set (map fst (snd (bucket_step rs st scan)))
             \<subseteq> set (map fst (fst st)) \<union> set (map fst (snd st))
                 \<union> without_first_marker ` fst ` set (tickers_of scan)"
    using keys_count_tickers_subset [of "fst st" "tickers_of scan"]
      keys_count_tickers_subset [of "snd st" "tickers_of scan"]
    by (auto simp: bucket_step_def)
  have pairs: "set (all_pairs (scan # scans)) = set (tickers_of scan) \<union> set (all_pairs scans)"
    by (simp add: all_pairs_def)
  show ?case
    using Cons.IH [of "bucket_step rs st scan"] one unfolding pairs foldl_Cons
    by blast
qed

lemma keys_buckets:
  "set (object_keys (fst (buckets rs allScans))) \<union> set (object_keys (snd (buckets rs allScans)))
   \<subseteq> without_first_marker ` fst ` set (all_pairs allScans)"
  using keys_bucket_fold [of rs "([], [])" allScans]
  by (simp add: buckets_def object_keys_def set_object_entries)

lemma set_set_order: "set (set_order xs) = set xs"
proof -
  have "set (foldl (\<lambda>acc x. if x \<in> set acc then acc else acc @ [x]) a xs) = set a \<union> set xs"
    for a :: "string list"
    by (induction xs arbitrary: a) auto
  then show ?thesis
    by (simp add: set_order_def)
qed

text \<open>
  Every entry of the result comes from the loop body at its own ticker, which is a
  normalized symbol of the history.
\<close>

lemma momentum_results_row:
  assumes "e \<in> set (momentum_results allScans recentScans)"
  shows "momentum_row (fst (buckets (timestamp (hd recentScans)) allScans))
           (snd (buckets (timestamp (hd recentScans)) allScans))
           (length allScans) (length recentScans) (ticker e) = Some e"
    and "ticker e \<in> without_first_marker ` fst ` set (all_pairs allScans)"
proof -
  obtain r0 rest where rs: "recentScans = r0 # rest"
    using assms by (cases recentScans) (simp_all add: momentum_results_def)
  let ?rt = "fst (buckets (timestamp r0) allScans)"
  let ?pt = "snd (buckets (timestamp r0) allScans)"
  from assms rs obtain t where t: "t \<in> set (set_order (object_keys ?rt @ object_keys ?pt))"
    and row: "momentum_row ?rt ?pt (length allScans) (length recentScans) t = Some e"
    by (auto simp: momentum_results_def Let_def case_prod_beta List.map_filter_def)
  have te: "ticker e = t"
    using row by (rule momentum_row_ticker)
  show "momentum_row (fst (buckets (timestamp (hd recentScans)) allScans))
           (snd (buckets (timestamp (hd recentScans)) allScans))
           (length allScans) (length recentScans) (ticker e) = Some e"
    using row by (simp add: rs te)
  from t have "t \<in> set (object_keys ?rt) \<union> set (object_keys ?pt)"
    by (simp add: set_set_order)
  then show "ticker e \<in> without_first_marker ` fst ` set (all_pairs allScans)"
    using keys_buckets [of "timestamp r0" allScans] unfolding te by blast
qed

lemma getMomentum_subset:
  "set (getMomentum allScans recentScans) \<subseteq> set (momentum_results allScans recentScans)"
proof -
  have "set (take 12 (sort_key (\<lambda>e. - abs_change e) (momentum_results allScans recentScans)))
        \<subseteq> set (momentum_results allScans recentScans)"
    by (metis set_sort set_take_subset)
  then show ?thesis
    by (simp add: getMomentum_def)
qed

lemma plain_symbols_image:
  "plain_symbols ps \<Longrightarrow> k \<in> without_first_marker ` fst ` set ps
   \<Longrightarrow> k \<notin> set object_prototype_names"
  by (auto simp: plain_symbols_def list_all_iff)

text \<open>
  C5. The loop body of lines 173 to 189 for a ticker \<open>t\<close> that is no name of
  \<^verbatim>\<open>Object.prototype\<close>, with counts \<open>recent\<close> and \<open>prior\<close> below \<open>2^53\<close> in the two
  buckets, over a recent window that is not empty; \<open>r\<close> and \<open>p\<close> are the two rates as
  the code computes them, each division rounded to binary64, \<open>p\<close> is positive, and the
  percent change \<open>(r - p) / p * 100\<close>, rounded after each of its three operations, is
  below \<open>10^21\<close> in absolute value, so that \<^verbatim>\<open>toFixed\<close> prints it in decimal digits.
  Let \<open>c\<close> be that number rounded to the nearest integer, halves away from zero.
  \<^item> An entry is pushed only when \<open>\<bar>c\<bar> > 30\<close>, and exactly when moreover the noise
    floor \<open>recent + prior \<ge> 5\<close> is passed.
  \<^item> The pushed entry carries the ticker, the change \<open>c\<close>, and direction up when \<open>c\<close> is
    positive, down otherwise.
  \<^item> When the recent rate is 1.3 times the prior rate, as the two numbers the code
    holds or as the two exact quotients, \<open>c\<close> is 30, the text printed is \<open>''30''\<close> and
    no entry is pushed.
  \<^item> Every entry of the result of \<^verbatim>\<open>getMomentum\<close> is the entry that the loop body
    pushes for its ticker on the two buckets of the history.
  \<^item> When no symbol of the history normalizes to a name of \<^verbatim>\<open>Object.prototype\<close>, no
    ticker of the result is such a name, and every entry of the result whose ticker has
    a positive prior rate in the buckets, with a percent change below \<open>10^21\<close> in
    absolute value, carries that percent change rounded to the nearest integer; it is
    above 30 in absolute value, and the direction is up when it is positive, down
    otherwise.
  \<^item> A ticker for which the loop body pushes nothing is the ticker of no entry of the
    result.
\<close>

theorem C5_momentum_threshold:
  fixes rt pt :: counts and n m :: nat and t :: string
    and allScans recentScans :: "snapshot list"
  defines "recent \<equiv> obj_get rt t"
    and "prior \<equiv> obj_get pt t"
  defines "r \<equiv> fdiv (of_int recent) (of_nat m)"
    and "p \<equiv> fdiv (of_int prior) (of_int (prior_denominator n m))"
  defines "c \<equiv> round_half_away (pct_double r p)"
  defines "recentTickers \<equiv> fst (buckets (timestamp (hd recentScans)) allScans)"
    and "priorTickers \<equiv> snd (buckets (timestamp (hd recentScans)) allScans)"
  assumes "0 < m" and "t \<notin> set object_prototype_names"
    and "\<bar>recent\<bar> < 2 ^ 53" and "\<bar>prior\<bar> < 2 ^ 53"
    and "p > 0" and "\<bar>pct_double r p\<bar> < 10 ^ 21"
  shows "(momentum_row rt pt n m t \<noteq> None \<longleftrightarrow> recent + prior \<ge> 5 \<and> \<bar>c\<bar> > 30)
   \<and> (\<forall>e. momentum_row rt pt n m t = Some e \<longrightarrow>
          \<bar>c\<bar> > 30 \<and> ticker e = t \<and> change e = Fin (of_int c)
          \<and> direction e = (if c > 0 then ''up'' else ''down''))
   \<and> (r = 13 / 10 * p
        \<or> of_int recent / of_nat m = 13 / 10 * (of_int prior / of_int (prior_denominator n m) :: rat)
      \<longrightarrow> c = 30 \<and> toFixed 0 (pct_double r p) = ''30'' \<and> momentum_row rt pt n m t = None)
   \<and> (\<forall>e \<in> set (getMomentum allScans recentScans).
         momentum_row recentTickers priorTickers (length allScans) (length recentScans) (ticker e)
         = Some e)
   \<and> (plain_symbols (all_pairs allScans) \<longrightarrow>
        (\<forall>e \<in> set (getMomentum allScans recentScans).
           ticker e \<notin> set object_prototype_names
           \<and> (let r' = fdiv (of_int (obj_get recentTickers (ticker e)))
                            (of_nat (length recentScans));
                   p' = fdiv (of_int (obj_get priorTickers (ticker e)))
                            (of_int (prior_denominator (length allScans) (length recentScans)));
                   c' = round_half_away (pct_double r' p')
               in p' > 0 \<and> \<bar>pct_double r' p'\<bar> < 10 ^ 21 \<longrightarrow>
                    \<bar>c'\<bar> > 30 \<and> change e = Fin (of_int c')
                    \<and> direction e = (if c' > 0 then ''up'' else ''down''))))
   \<and> (momentum_row recentTickers priorTickers (length allScans) (length recentScans) t = None
        \<longrightarrow> (\<forall>e \<in> set (getMomentum allScans recentScans). ticker e \<noteq> t))"
proof -
  have pos: "fdiv (of_int (obj_get pt t)) (of_int (prior_denominator n m)) > 0"
    using assms(12) unfolding p_def prior_def .
  note row = momentum_row_prior [OF pos, of rt]
  note defs = c_def r_def p_def recent_def prior_def
  have iff: "momentum_row rt pt n m t \<noteq> None \<longleftrightarrow> recent + prior \<ge> 5 \<and> \<bar>c\<bar> > 30"
    unfolding defs row by simp
  have entry: "\<forall>e. momentum_row rt pt n m t = Some e \<longrightarrow>
          \<bar>c\<bar> > 30 \<and> ticker e = t \<and> change e = Fin (of_int c)
          \<and> direction e = (if c > 0 then ''up'' else ''down'')"
    unfolding defs row by (auto split: if_splits)
  have boundary: "c = 30 \<and> toFixed 0 (pct_double r p) = ''30'' \<and> momentum_row rt pt n m t = None"
    if eq: "r = 13 / 10 * p
        \<or> of_int recent / of_nat m = 13 / 10 * (of_int prior / of_int (prior_denominator n m) :: rat)"
  proof -
    have near: "\<bar>r - 13 / 10 * p\<bar> \<le> p / 1000000"
      using eq
    proof
      assume "r = 13 / 10 * p"
      then show ?thesis
        using assms(12) by simp
    next
      let ?R = "(of_int recent / of_nat m :: rat)"
      let ?P = "(of_int prior / of_int (prior_denominator n m) :: rat)"
      assume e: "?R = 13 / 10 * ?P"
      have "?P > 0"
        using assms(12) unfolding p_def fdiv_def by (simp only: fl_pos_iff)
      from rounded_rates_near [OF this e] show ?thesis
        by (simp only: r_def p_def fdiv_def)
    qed
    note x = pct_double_near_30 [OF assms(12) near]
    note c30 = round_half_away_near_30 [OF x]
    have c: "c = 30"
      using c30(1) by (simp add: c_def)
    have "momentum_row rt pt n m t = None"
      using c unfolding defs row by simp
    with c show ?thesis
      using c30(2) by simp
  qed
  have link: "\<forall>e \<in> set (getMomentum allScans recentScans).
         momentum_row recentTickers priorTickers (length allScans) (length recentScans) (ticker e)
         = Some e"
    unfolding recentTickers_def priorTickers_def
    using getMomentum_subset momentum_results_row(1) by blast
  have names: "\<forall>e \<in> set (getMomentum allScans recentScans).
           ticker e \<notin> set object_prototype_names"
    if "plain_symbols (all_pairs allScans)"
    using that getMomentum_subset momentum_results_row(2) plain_symbols_image by blast
  have tied: "\<forall>e \<in> set (getMomentum allScans recentScans).
           (let r' = fdiv (of_int (obj_get recentTickers (ticker e)))
                            (of_nat (length recentScans));
                p' = fdiv (of_int (obj_get priorTickers (ticker e)))
                            (of_int (prior_denominator (length allScans) (length recentScans)));
                c' = round_half_away (pct_double r' p')
            in p' > 0 \<and> \<bar>pct_double r' p'\<bar> < 10 ^ 21 \<longrightarrow>
                 \<bar>c'\<bar> > 30 \<and> change e = Fin (of_int c')
                 \<and> direction e = (if c' > 0 then ''up'' else ''down''))"
  proof
    fix e
    assume "e \<in> set (getMomentum allScans recentScans)"
    with link have
      "momentum_row recentTickers priorTickers (length allScans) (length recentScans) (ticker e)
       = Some e"
      by blast
    then show "(let r' = fdiv (of_int (obj_get recentTickers (ticker e)))
                            (of_nat (length recentScans));
                p' = fdiv (of_int (obj_get priorTickers (ticker e)))
                            (of_int (prior_denominator (length allScans) (length recentScans)));
                c' = round_half_away (pct_double r' p')
            in p' > 0 \<and> \<bar>pct_double r' p'\<bar> < 10 ^ 21 \<longrightarrow>
                 \<bar>c'\<bar> > 30 \<and> change e = Fin (of_int c')
                 \<and> direction e = (if c' > 0 then ''up'' else ''down''))"
      unfolding Let_def using momentum_row_prior_entry by blast
  qed
  have out: "\<forall>e \<in> set (getMomentum allScans recentScans). ticker e \<noteq> t"
    if "momentum_row recentTickers priorTickers (length allScans) (length recentScans) t = None"
    using that link by fastforce
  from names tied have both: "\<forall>e \<in> set (getMomentum allScans recentScans).
           ticker e \<notin> set object_prototype_names
           \<and> (let r' = fdiv (of_int (obj_get recentTickers (ticker e)))
                            (of_nat (length recentScans));
                   p' = fdiv (of_int (obj_get priorTickers (ticker e)))
                            (of_int (prior_denominator (length allScans) (length recentScans)));
                   c' = round_half_away (pct_double r' p')
               in p' > 0 \<and> \<bar>pct_double r' p'\<bar> < 10 ^ 21 \<longrightarrow>
                    \<bar>c'\<bar> > 30 \<and> change e = Fin (of_int c')
                    \<and> direction e = (if c' > 0 then ''up'' else ''down''))"
    if "plain_symbols (all_pairs allScans)"
    using that by blast
  from iff entry boundary link both out show ?thesis
    by blast
qed

theorem C5_momentum_threshold_witness:
  "round_half_away (pct_double (fdiv 13 10) (fdiv 30 30)) = 30
   \<and> momentum_row [(''UP'', 13), (''B'', 26)] [(''UP'', 30), (''B'', 30)] 40 10 ''UP'' = None
   \<and> buckets (Some 100) (history [(''$UP'', 30), (''$B'', 30)] [(''$UP'', 13), (''$B'', 26)])
       = ([(''UP'', 13), (''B'', 26)], [(''UP'', 30), (''B'', 30)])
   \<and> ''UP'' \<notin> ticker ` set
        (getMomentum (history [(''$UP'', 30), (''$B'', 30)] [(''$UP'', 13), (''$B'', 26)])
           (recent_window [(''$UP'', 13), (''$B'', 26)]))
   \<and> getMomentum (history [(''$UP'', 30), (''$B'', 30)] [(''$UP'', 13), (''$B'', 26)])
        (recent_window [(''$UP'', 13), (''$B'', 26)])
       = [\<lparr>ticker = ''B'', recentRate = ''2.60'', priorRate = ''1.00'',
           change = Fin 160, direction = ''up''\<rparr>]
   \<and> round_half_away (pct_double (fdiv 26 10) (fdiv 30 30)) = 160
   \<and> momentum_row [(''T'', 9)] [(''T'', 10)] 49 20 ''T'' = None
   \<and> round_half_away (pct_double (fdiv 9 20) (fdiv 10 29)) = 30
   \<and> momentum_row [(''T'', 7)] [(''T'', 8)] 40 10 ''T''
       = Some \<lparr>ticker = ''T'', recentRate = ''0.70'', priorRate = ''0.27'',
               change = Fin 162, direction = ''up''\<rparr>
   \<and> round_half_away (pct_double (fdiv 7 10) (fdiv 8 30)) = 162"
proof -
  let ?rt = "[(''UP'', 13), (''B'', 26)] :: counts"
  let ?pt = "[(''UP'', 30), (''B'', 30)] :: counts"
  have h1: "(0::nat) < 10"
    by simp
  have h2: "''UP'' \<notin> set object_prototype_names"
    by code_simp
  have h3: "\<bar>obj_get ?rt ''UP''\<bar> < 2 ^ 53" and h4: "\<bar>obj_get ?pt ''UP''\<bar> < 2 ^ 53"
    by code_simp+
  have h5: "fdiv (of_int (obj_get ?pt ''UP'')) (of_int (prior_denominator 40 10)) > 0"
    by code_simp
  have h6: "\<bar>pct_double (fdiv (of_int (obj_get ?rt ''UP'')) (of_nat 10))
               (fdiv (of_int (obj_get ?pt ''UP'')) (of_int (prior_denominator 40 10)))\<bar> < 10 ^ 21"
    by code_simp
  have e: "(of_int (obj_get ?rt ''UP'') / of_nat 10 :: rat)
           = 13 / 10 * (of_int (obj_get ?pt ''UP'') / of_int (prior_denominator 40 10))"
    by code_simp
  have a: "fdiv (of_int (obj_get ?rt ''UP'')) (of_nat 10) = fdiv 13 10"
    and b: "fdiv (of_int (obj_get ?pt ''UP'')) (of_int (prior_denominator 40 10)) = fdiv 30 30"
    by (simp_all add: obj_get_def prior_denominator_def)
  have v: "getMomentum (history [(''$UP'', 30), (''$B'', 30)] [(''$UP'', 13), (''$B'', 26)])
        (recent_window [(''$UP'', 13), (''$B'', 26)])
       = [\<lparr>ticker = ''B'', recentRate = ''2.60'', priorRate = ''1.00'',
           change = Fin 160, direction = ''up''\<rparr>]"
    by code_simp
  have w: "round_half_away (pct_double (fdiv 26 10) (fdiv 30 30)) = 160"
    "momentum_row [(''T'', 9)] [(''T'', 10)] 49 20 ''T'' = None"
    "round_half_away (pct_double (fdiv 9 20) (fdiv 10 29)) = 30"
    "momentum_row [(''T'', 7)] [(''T'', 8)] 40 10 ''T''
       = Some \<lparr>ticker = ''T'', recentRate = ''0.70'', priorRate = ''0.27'',
               change = Fin 162, direction = ''up''\<rparr>"
    "round_half_away (pct_double (fdiv 7 10) (fdiv 8 30)) = 162"
    by code_simp+
  let ?H = "history [(''$UP'', 30), (''$B'', 30)] [(''$UP'', 13), (''$B'', 26)]"
  let ?R = "recent_window [(''$UP'', 13), (''$B'', 26)]"
  have bk: "buckets (Some 100) ?H = (?rt, ?pt)"
    by code_simp
  have hd: "timestamp (hd ?R) = Some 100"
    by (simp add: recent_window_def scan_with_tickers_def)
  have len: "length ?H = 40" "length ?R = 10"
    by (simp_all add: history_def recent_window_def)
  note inst = C5_momentum_threshold [OF h1 h2 h3 h4 h5 h6, where allScans = ?H and recentScans = ?R]
  note boundary = inst [THEN conjunct2, THEN conjunct2, THEN conjunct1]
  note out = inst [THEN conjunct2, THEN conjunct2, THEN conjunct2, THEN conjunct2, THEN conjunct2]
  from boundary e
  have main: "round_half_away
          (pct_double (fdiv (of_int (obj_get ?rt ''UP'')) (of_nat 10))
             (fdiv (of_int (obj_get ?pt ''UP'')) (of_int (prior_denominator 40 10)))) = 30
        \<and> momentum_row ?rt ?pt 40 10 ''UP'' = None"
    by (simp only: simp_thms)
  then have "momentum_row (fst (buckets (timestamp (hd ?R)) ?H)) (snd (buckets (timestamp (hd ?R)) ?H))
                (length ?H) (length ?R) ''UP'' = None"
    by (simp only: hd bk len fst_conv snd_conv)
  with out have "\<forall>e \<in> set (getMomentum ?H ?R). ticker e \<noteq> ''UP''"
    by (rule mp)
  then have absent: "''UP'' \<notin> ticker ` set (getMomentum ?H ?R)"
    by (rule contrapos_pn [of "\<forall>e \<in> set (getMomentum ?H ?R). ticker e \<noteq> ''UP''"]) fastforce
  from main absent v w bk show ?thesis
    unfolding a b by (intro conjI) (simp_all only: simp_thms)
qed





end
